theory Spec2Isabelle
  imports Complex_Main
begin

section \<open>Numbers and values of the program\<close>

text \<open>
  The component \<^verbatim>\<open>VehicleMap.jsx\<close> computes with JavaScript numbers. They are
  modelled as real numbers, so every arithmetic operation below is the exact one; the
  rounding of binary64 arithmetic, NaN and signed zeros are outside this model. The progress
  counter and \<^verbatim>\<open>getDistance\<close> are modelled a second time in binary64, further down, for
  the two places where rounding decides what a claim says. A coordinate is the
  two-element array \<^verbatim>\<open>[latitude, longitude]\<close>; the value \<^verbatim>\<open>undefined\<close> (an array
  read out of range) is \<open>None\<close>.
\<close>

type_synonym coord = "real \<times> real"

text \<open>\<^verbatim>\<open>xs[i]\<close>: reading an array out of range yields \<^verbatim>\<open>undefined\<close>.\<close>

definition js_at :: "'a option list \<Rightarrow> nat \<Rightarrow> 'a option" where
  "js_at xs i = (if i < length xs then xs ! i else None)"

text \<open>
  \<^verbatim>\<open>x % y\<close> on numbers: the remainder has the sign of the dividend, the quotient is
  truncated towards zero.
\<close>

definition js_trunc :: "real \<Rightarrow> int" where
  "js_trunc x = (if 0 \<le> x then \<lfloor>x\<rfloor> else \<lceil>x\<rceil>)"

definition js_rem :: "real \<Rightarrow> real \<Rightarrow> real" where
  "js_rem x y = x - y * of_int (js_trunc (x / y))"

text \<open>
  \<^verbatim>\<open>Math.atan2(y, x)\<close>: the angle of the point \<open>(x, y)\<close> in \<open>(-\<pi>, \<pi>]\<close>, and \<open>0\<close>
  at the origin.
\<close>

definition atan2 :: "real \<Rightarrow> real \<Rightarrow> real" where
  "atan2 y x =
     (if 0 < x then arctan (y / x)
      else if x < 0 then (if 0 \<le> y then arctan (y / x) + pi else arctan (y / x) - pi)
      else if 0 < y then pi / 2
      else if y < 0 then - (pi / 2)
      else 0)"

text \<open>
  \<^verbatim>\<open>x.toFixed(1)\<close> read back as a number: the closest multiple of \<open>1/10\<close>, the larger
  one of two equally close; a negative number is rounded as its absolute value.
\<close>

definition toFixed1 :: "real \<Rightarrow> real" where
  "toFixed1 x =
     (if x < 0 then - (of_int \<lfloor>(- x) * 10 + 1 / 2\<rfloor> / 10)
      else of_int \<lfloor>x * 10 + 1 / 2\<rfloor> / 10)"

section \<open>Geo Math\<close>

text \<open>
  The haversine term of \<^verbatim>\<open>getDistance\<close> (its local constant \<^verbatim>\<open>hav\<close>). Over the
  reals its product is exact in whatever order it is taken; the rounded evaluation of the
  program is \<open>getDistance64\<close>, further down.
\<close>

definition hav :: "coord \<Rightarrow> coord \<Rightarrow> real" where
  "hav a b =
     (let dLat = ((fst b - fst a) * pi) / 180;
          dLon = ((snd b - snd a) * pi) / 180;
          lat1 = (fst a * pi) / 180;
          lat2 = (fst b * pi) / 180
      in (sin (dLat / 2))\<^sup>2 + (sin (dLon / 2))\<^sup>2 * cos lat1 * cos lat2)"

definition getDistance :: "coord \<Rightarrow> coord \<Rightarrow> real" where
  "getDistance a b = (let R = 6371 in 2 * R * arcsin (sqrt (hav a b)))"

definition toRad :: "real \<Rightarrow> real" where
  "toRad deg = (deg * pi) / 180"

definition toDeg :: "real \<Rightarrow> real" where
  "toDeg rad = (rad * 180) / pi"

definition getBearing :: "coord \<Rightarrow> coord \<Rightarrow> real" where
  "getBearing A B =
     (let lat1 = toRad (fst A);
          lat2 = toRad (fst B);
          dLon = toRad (snd B - snd A);
          y = sin dLon * cos lat2;
          x = cos lat1 * sin lat2 - sin lat1 * cos lat2 * cos dLon
      in js_rem (toDeg (atan2 y x) + 360) 360)"

section \<open>The state of the component\<close>

text \<open>
  A record of the route source: it exposes \<^verbatim>\<open>latitude\<close> and \<^verbatim>\<open>longitude\<close>; the
  record type is extensible, other fields are ignored as \<^verbatim>\<open>data.map\<close> ignores them.
\<close>

record waypoint =
  latitude :: real
  longitude :: real

text \<open>
  What \<^verbatim>\<open>fetch("/dummy-route.json").then((res) => res.json())\<close> hands to the last
  \<^verbatim>\<open>then\<close>: nothing, when the promise is rejected (the source is unreachable, or the
  body is not JSON), or the list of records.
\<close>

datatype fetched = Rejected | Resolved "waypoint list"

datatype js_error = TypeError

text \<open>
  The hooks of \<^verbatim>\<open>VehicleMap\<close>: the \<^verbatim>\<open>useState\<close> cells that playback reads or writes,
  the two \<^verbatim>\<open>useRef\<close> counters, and what the component changes outside React:
  \<open>intervalRef\<close> tells whether the interval stored in \<^verbatim>\<open>intervalRef.current\<close> is still
  scheduled, \<open>carRotation\<close> is the angle of the \<^verbatim>\<open>rotate(...deg)\<close> transform of the
  element \<^verbatim>\<open>car-icon\<close>, \<open>alerts\<close> counts the calls of \<^verbatim>\<open>alert\<close>. The display
  switches \<^verbatim>\<open>darkMode\<close> and \<^verbatim>\<open>showStats\<close> touch nothing of playback and are left out.
\<close>

record vm_state =
  route :: "coord option list"
  currentIndex :: nat
  isPlaying :: bool
  visitedPath :: "coord option list"
  currentPos :: "coord option"
  speed :: real
  distanceCovered :: real
  segmentIndexRef :: nat
  progressRef :: real
  intervalRef :: bool
  carRotation :: real
  alerts :: nat

definition initial :: vm_state where
  "initial =
     \<lparr>route = [], currentIndex = 0, isPlaying = False, visitedPath = [],
      currentPos = Some (0, 0), speed = 1, distanceCovered = 0, segmentIndexRef = 0,
      progressRef = 0, intervalRef = False, carRotation = 0, alerts = 0\<rparr>"

section \<open>Playback Engine\<close>

text \<open>
  The effect with dependencies \<^verbatim>\<open>[isPlaying, speed, route]\<close>: its cleanup clears the
  interval, its body schedules a new one when \<^verbatim>\<open>isPlaying && route.length > 1\<close>.
  The period \<^verbatim>\<open>50 / speed\<close> of the interval is time and not part of the model.
\<close>

definition playbackEffect :: "vm_state \<Rightarrow> vm_state" where
  "playbackEffect s = s\<lparr>intervalRef := (isPlaying s \<and> 1 < length (route s))\<rparr>"

text \<open>After a render React runs the effect again only if one of its dependencies changed.\<close>

definition afterRender :: "vm_state \<Rightarrow> vm_state \<Rightarrow> vm_state" where
  "afterRender old new =
     (if isPlaying old = isPlaying new \<and> speed old = speed new \<and> route old = route new
      then new else playbackEffect new)"

definition step :: real where
  "step = 0.02"

definition interpolate :: "coord \<Rightarrow> coord \<Rightarrow> real \<Rightarrow> coord" where
  "interpolate start end' progress =
     (let lat = fst start + (fst end' - fst start) * progress;
          lng = snd start + (snd end' - snd start) * progress
      in (lat, lng))"

text \<open>
  The callback of \<^verbatim>\<open>setInterval\<close>. Reading \<^verbatim>\<open>start[0]\<close> of an undefined
  \<^verbatim>\<open>start\<close> throws before anything is written. The element \<^verbatim>\<open>car-icon\<close> is in the
  document whenever the callback runs: the interval is scheduled only for a loaded route,
  whose map shows the car.
\<close>

definition tick :: "vm_state \<Rightarrow> js_error + vm_state" where
  "tick s =
     (let i = segmentIndexRef s;
          progress = progressRef s;
          start = js_at (route s) i;
          end' = js_at (route s) (i + 1)
      in case end' of
           None \<Rightarrow> Inr (s\<lparr>intervalRef := False, alerts := alerts s + 1\<rparr>)
         | Some e \<Rightarrow>
             (case start of
                None \<Rightarrow> Inl TypeError
              | Some st \<Rightarrow>
                  (let newPos = interpolate st e progress;
                       bearing = getBearing st e;
                       s1 = s\<lparr>currentPos := Some newPos,
                              visitedPath := visitedPath s @ [Some newPos],
                              carRotation := js_rem (bearing - 90 + 90) 360,
                              progressRef := progress + step\<rparr>
                   in Inr (if 1 \<le> progressRef s1
                           then s1\<lparr>progressRef := 0,
                                   segmentIndexRef := i + 1,
                                   currentIndex := i + 1,
                                   distanceCovered :=
                                     distanceCovered s1 + getDistance st e * 1000\<rparr>
                           else s1))))"

text \<open>
  One period of the interval: the callback runs only while the interval is scheduled; an
  exception thrown by the callback is uncaught and leaves the state as it was.
\<close>

definition intervalFires :: "vm_state \<Rightarrow> vm_state" where
  "intervalFires s =
     (if intervalRef s then (case tick s of Inr s' \<Rightarrow> s' | Inl _ \<Rightarrow> s) else s)"

fun ticks :: "nat \<Rightarrow> vm_state \<Rightarrow> vm_state" where
  "ticks 0 s = s"
| "ticks (Suc n) s = ticks n (intervalFires s)"

text \<open>The Play/Pause button: \<^verbatim>\<open>setIsPlaying(!isPlaying)\<close>.\<close>

definition clickPlayPause :: "vm_state \<Rightarrow> vm_state" where
  "clickPlayPause s = afterRender s (s\<lparr>isPlaying := \<not> isPlaying s\<rparr>)"

text \<open>The Reset button.\<close>

definition clickReset :: "vm_state \<Rightarrow> vm_state" where
  "clickReset s =
     afterRender s
       (s\<lparr>isPlaying := False,
          intervalRef := False,
          segmentIndexRef := 0,
          progressRef := 0,
          currentIndex := 0,
          visitedPath := [js_at (route s) 0],
          currentPos := js_at (route s) 0,
          distanceCovered := 0,
          carRotation := 0\<rparr>)"

text \<open>The speed slider: \<^verbatim>\<open>setSpeed(parseFloat(e.target.value))\<close>.\<close>

definition changeSpeed :: "real \<Rightarrow> vm_state \<Rightarrow> vm_state" where
  "changeSpeed v s = afterRender s (s\<lparr>speed := v\<rparr>)"

text \<open>
  What can happen between two renders while a route is played, Reset apart: a period of the
  interval, a click on Play/Pause, a move of the speed slider. A run performs a list of them
  in order.
\<close>

datatype playback_event = Tick | PlayPause | Slider real

fun perform :: "playback_event \<Rightarrow> vm_state \<Rightarrow> vm_state" where
  "perform Tick s = intervalFires s"
| "perform PlayPause s = clickPlayPause s"
| "perform (Slider v) s = changeSpeed v s"

fun run :: "playback_event list \<Rightarrow> vm_state \<Rightarrow> vm_state" where
  "run [] s = s"
| "run (e # es) s = run es (perform e s)"

section \<open>Route Loader\<close>

definition roundTrip :: "waypoint list \<Rightarrow> coord option list" where
  "roundTrip data =
     (let formatted = map (\<lambda>p. Some (latitude p, longitude p)) data
      in formatted @ [js_at formatted 0])"

text \<open>The last \<^verbatim>\<open>then\<close> of the fetch effect.\<close>

definition routeLoaded :: "waypoint list \<Rightarrow> vm_state \<Rightarrow> vm_state" where
  "routeLoaded data s =
     afterRender s
       (s\<lparr>route := roundTrip data,
          visitedPath := [js_at (roundTrip data) 0],
          currentPos := js_at (roundTrip data) 0\<rparr>)"

text \<open>A rejected promise has no handler: nothing is written.\<close>

definition fetchRoute :: "fetched \<Rightarrow> vm_state \<Rightarrow> vm_state" where
  "fetchRoute r s = (case r of Rejected \<Rightarrow> s | Resolved data \<Rightarrow> routeLoaded data s)"

section \<open>Stats and rendering\<close>

text \<open>
  \<^verbatim>\<open>Math.min(((currentIndex / (route.length - 1)) * 100).toFixed(1), 100)\<close>. \<open>None\<close>
  stands for no number: the constant is not computed for an empty route (the component
  returns before), and it is \<^verbatim>\<open>NaN\<close> for \<^verbatim>\<open>0 / 0\<close>; a positive index over
  \<^verbatim>\<open>0\<close> is \<^verbatim>\<open>Infinity\<close>, cut to \<^verbatim>\<open>100\<close>.
\<close>

definition progressPercent :: "vm_state \<Rightarrow> real option" where
  "progressPercent s =
     (if length (route s) = 0 then None
      else if length (route s) = 1 then (if currentIndex s = 0 then None else Some 100)
      else Some (min (toFixed1 ((real (currentIndex s) / real (length (route s) - 1)) * 100))
                  100))"

text \<open>
  What the component returns: the paragraph \<^verbatim>\<open>Loading route...\<close> for an empty route,
  otherwise the panel and the map; building the panel reads \<^verbatim>\<open>currentPos[0]\<close>, which
  throws when \<^verbatim>\<open>currentPos\<close> is undefined.
\<close>

datatype view = LoadingRoute | Panel

definition render :: "vm_state \<Rightarrow> js_error + view" where
  "render s =
     (if length (route s) = 0 then Inr LoadingRoute
      else case currentPos s of None \<Rightarrow> Inl TypeError | Some _ \<Rightarrow> Inr Panel)"


text \<open>The route of the example: \<^verbatim>\<open>[[0,0],[0,1],[0,0]]\<close>, from two records.\<close>

definition demoData :: "waypoint list" where
  "demoData = [\<lparr>latitude = 0, longitude = 0\<rparr>, \<lparr>latitude = 0, longitude = 1\<rparr>]"

text \<open>The example route loaded into the first render, then Play clicked.\<close>

definition demoStart :: vm_state where
  "demoStart = clickPlayPause (fetchRoute (Resolved demoData) initial)"

section \<open>The progress counter in binary64\<close>

text \<open>
  The real numbers above idealise the numbers of the program. For the place where
  rounding could change what a claim counts, the statements
  \<^verbatim>\<open>progressRef.current += step\<close> and \<^verbatim>\<open>progressRef.current >= 1\<close>, the counter is
  modelled a second time as the program computes it, in IEEE 754 binary64 with rounding to
  nearest, ties to even. Every value of the counter is a multiple of \<open>2\<^sup>-\<^sup>5\<^sup>8\<close> below
  \<open>2\<close>; an integer \<open>n\<close> stands for \<open>n / 2\<^sup>5\<^sup>8\<close>, and a sum is rounded to 53 significant
  bits.
\<close>

function bitlen :: "int \<Rightarrow> nat" where
  "bitlen n = (if n \<le> 0 then 0 else Suc (bitlen (n div 2)))"
  by pat_completeness auto
termination
  by (relation "measure nat") auto

declare bitlen.simps [simp del]

definition round53 :: "int \<Rightarrow> int" where
  "round53 n =
     (if bitlen n \<le> 53 then n
      else let e = bitlen n - 53;
               q = n div 2 ^ e;
               r = n mod 2 ^ e;
               half = 2 ^ (e - 1)
           in if r < half then q * 2 ^ e
              else if half < r then (q + 1) * 2 ^ e
              else if even q then q * 2 ^ e
              else (q + 1) * 2 ^ e)"

definition b64_add :: "int \<Rightarrow> int \<Rightarrow> int" where
  "b64_add a b = round53 (a + b)"

text \<open>The binary64 number written \<^verbatim>\<open>0.02\<close>, and \<^verbatim>\<open>1\<close>.\<close>

definition b64_step :: int where
  "b64_step = 5764607523034235"

definition b64_one :: int where
  "b64_one = 2 ^ 58"

text \<open>
  The number of the tick at which the counter, started at \<open>p\<close> after \<open>n\<close> ticks, first
  reaches \<^verbatim>\<open>1\<close>; \<open>None\<close> if that takes more than \<open>fuel\<close> ticks.
\<close>

fun b64_wrap :: "nat \<Rightarrow> int \<Rightarrow> nat \<Rightarrow> nat option" where
  "b64_wrap 0 p n = None"
| "b64_wrap (Suc fuel) p n =
     (let p' = b64_add p b64_step
      in if b64_one \<le> p' then Some (Suc n) else b64_wrap fuel p' (Suc n))"

section \<open>Geo Math in binary64\<close>

text \<open>
  \<^verbatim>\<open>getDistance\<close> a second time, as the program computes it. A binary64 number is the pair
  \<open>(m, e)\<close> of integers that stands for \<open>m * 2\<^sup>e\<close>; its normal form has \<open>2\<^sup>5\<^sup>2 \<le> \<bar>m\<bar> < 2\<^sup>5\<^sup>3\<close>,
  and zero is \<open>(0, 0)\<close>. \<open>fl_norm\<close> rounds an exact result to 53 significant bits, to
  nearest and ties to even, as the four arithmetic operations of IEEE 754 do. The exponent
  range, infinities, NaN and the sign of zero are not modelled; division is used for the
  divisors \<^verbatim>\<open>180\<close> and \<^verbatim>\<open>2\<close> only.
\<close>

type_synonym b64 = "int \<times> int"

fun fl_norm :: "int \<times> int \<Rightarrow> b64" where
  "fl_norm (m, e) =
     (if m = 0 then (0, 0)
      else let n = bitlen \<bar>m\<bar>
           in if n \<le> 53 then (m * 2 ^ (53 - n), e - int (53 - n))
              else let k = n - 53;
                       q = \<bar>m\<bar> div 2 ^ k;
                       r = \<bar>m\<bar> mod 2 ^ k;
                       half = 2 ^ (k - 1);
                       q' = (if r < half then q
                             else if half < r then q + 1
                             else if even q then q
                             else q + 1)
                   in if q' = 2 ^ 53 then (sgn m * 2 ^ 52, e + int k + 1)
                      else (sgn m * q', e + int k))"

definition fl_of_int :: "int \<Rightarrow> b64" where
  "fl_of_int n = fl_norm (n, 0)"

fun fl_mul :: "b64 \<Rightarrow> b64 \<Rightarrow> b64" where
  "fl_mul (m1, e1) (m2, e2) = fl_norm (m1 * m2, e1 + e2)"

fun fl_add :: "b64 \<Rightarrow> b64 \<Rightarrow> b64" where
  "fl_add (m1, e1) (m2, e2) =
     (let e = min e1 e2
      in fl_norm (m1 * 2 ^ nat (e1 - e) + m2 * 2 ^ nat (e2 - e), e))"

fun fl_sub :: "b64 \<Rightarrow> b64 \<Rightarrow> b64" where
  "fl_sub (m1, e1) (m2, e2) =
     (let e = min e1 e2
      in fl_norm (m1 * 2 ^ nat (e1 - e) - m2 * 2 ^ nat (e2 - e), e))"

fun fl_div :: "b64 \<Rightarrow> b64 \<Rightarrow> b64" where
  "fl_div (m1, e1) (m2, e2) =
     (if m1 = 0 then (0, 0)
      else let s = 56 + bitlen \<bar>m2\<bar>;
               n = \<bar>m1\<bar> * 2 ^ s;
               q = n div \<bar>m2\<bar>;
               r = n mod \<bar>m2\<bar>;
               q2 = 2 * q + (if r = 0 then 0 else 1)
           in fl_norm (sgn m1 * sgn m2 * q2, e1 - e2 - int s - 1))"

text \<open>\<^verbatim>\<open>Math.PI\<close>: the binary64 number nearest to \<open>\<pi>\<close>.\<close>

definition fl_pi :: b64 where
  "fl_pi = (7074237752028440, - 51)"

text \<open>
  \<^verbatim>\<open>Math.sin\<close>, \<^verbatim>\<open>Math.cos\<close>, \<^verbatim>\<open>Math.sqrt\<close> and \<^verbatim>\<open>Math.asin\<close> belong to the
  engine, not to the component: they are a parameter, a table that gives the result of each
  function at the arguments it is known for.
\<close>

record mathlib =
  m_sin :: "b64 \<rightharpoonup> b64"
  m_cos :: "b64 \<rightharpoonup> b64"
  m_sqrt :: "b64 \<rightharpoonup> b64"
  m_asin :: "b64 \<rightharpoonup> b64"

text \<open>
  \<^verbatim>\<open>getDistance\<close> with every operation rounded, in the order the program evaluates them:
  \<^verbatim>\<open>x ** 2\<close> is the rounded product \<open>x * x\<close>, and the product of the second summand
  is taken from the left. \<open>None\<close> says that the table has no value for an argument.
\<close>

definition getDistance64 :: "mathlib \<Rightarrow> b64 \<times> b64 \<Rightarrow> b64 \<times> b64 \<Rightarrow> b64 option" where
  "getDistance64 M a b =
     (let R = fl_of_int 6371;
          dLat = fl_div (fl_mul (fl_sub (fst b) (fst a)) fl_pi) (fl_of_int 180);
          dLon = fl_div (fl_mul (fl_sub (snd b) (snd a)) fl_pi) (fl_of_int 180);
          lat1 = fl_div (fl_mul (fst a) fl_pi) (fl_of_int 180);
          lat2 = fl_div (fl_mul (fst b) fl_pi) (fl_of_int 180)
      in case m_sin M (fl_div dLat (fl_of_int 2)) of None \<Rightarrow> None | Some s1 \<Rightarrow>
         (case m_sin M (fl_div dLon (fl_of_int 2)) of None \<Rightarrow> None | Some s2 \<Rightarrow>
         (case m_cos M lat1 of None \<Rightarrow> None | Some c1 \<Rightarrow>
         (case m_cos M lat2 of None \<Rightarrow> None | Some c2 \<Rightarrow>
         (let hav = fl_add (fl_mul s1 s1) (fl_mul (fl_mul (fl_mul s2 s2) c1) c2)
          in case m_sqrt M hav of None \<Rightarrow> None | Some r \<Rightarrow>
             (case m_asin M r of None \<Rightarrow> None | Some t \<Rightarrow>
                Some (fl_mul (fl_mul (fl_of_int 2) R) t)))))))"

text \<open>
  The values of the four functions at the arguments that the coordinates \<^verbatim>\<open>[5, 0]\<close> and
  \<^verbatim>\<open>[6, 2]\<close> lead to, and at zero. Each value is the binary64 number nearest to the exact
  value of the function (proved below, as \<open>engine_correctly_rounded\<close>).
\<close>

definition engine :: mathlib where
  "engine =
     \<lparr>m_sin = [(0, 0) \<mapsto> (0, 0),
               (5030569068109113, - 59) \<mapsto> (5030505218395169, - 59),
               (- 5030569068109113, - 59) \<mapsto> (- 5030505218395169, - 59),
               (5030569068109113, - 58) \<mapsto> (5030313672170782, - 58),
               (- 5030569068109113, - 58) \<mapsto> (- 5030313672170782, - 58)],
      m_cos = [(6288211335136391, - 56) \<mapsto> (8972924142228898, - 53),
               (7545853602163669, - 56) \<mapsto> (8957856874784710, - 53)],
      m_sqrt = [(0, 0) \<mapsto> (0, 0),
                (6971350380797596, - 64) \<mapsto> (5603228620824713, - 58),
                (6971350380797594, - 64) \<mapsto> (5603228620824712, - 58)],
      m_asin = [(0, 0) \<mapsto> (0, 0),
                (5603228620824713, - 58) \<mapsto> (5603581607367387, - 58),
                (5603228620824712, - 58) \<mapsto> (5603581607367386, - 58)]\<rparr>"

text \<open>The real number a pair stands for.\<close>

definition fl_val :: "b64 \<Rightarrow> real" where
  "fl_val x = (if 0 \<le> snd x then of_int (fst x) * 2 ^ nat (snd x)
               else of_int (fst x) / 2 ^ nat (- snd x))"

section \<open>Properties of Geo Math\<close>

text \<open>
  The haversine term is half of one minus the inner product of the two unit vectors of the
  coordinates, for all real latitudes and longitudes. So it lies between \<open>0\<close> and \<open>1\<close>, and
  \<^verbatim>\<open>Math.sqrt\<close> and \<^verbatim>\<open>Math.asin\<close> are never applied outside their domains.
\<close>

lemma hav_alt:
  "hav a b = (1 - (sin (fst a * pi / 180) * sin (fst b * pi / 180)
      + cos (fst a * pi / 180) * cos (fst b * pi / 180) * cos ((snd b - snd a) * pi / 180))) / 2"
proof -
  have h: "(sin (x / 2))\<^sup>2 = (1 - cos x) / 2" for x :: real
    using cos_double_sin [of "x / 2"] by simp
  have d: "(fst b - fst a) * pi / 180 = fst b * pi / 180 - fst a * pi / 180"
    by (simp add: left_diff_distrib diff_divide_distrib)
  have alg: "(1 - (cb * ca + sb * sa)) / 2 + (1 - k) / 2 * ca * cb
      = (1 - (sa * sb + ca * cb * k)) / 2" for ca cb sa sb k :: real
    by (simp add: field_simps)
  show ?thesis
    unfolding hav_def Let_def h d cos_diff by (rule alg)
qed

lemma unit_dot_le_1:
  fixes a b c d k :: real
  assumes "a\<^sup>2 + b\<^sup>2 = 1" "c\<^sup>2 + d\<^sup>2 = 1" "\<bar>k\<bar> \<le> 1"
  shows "\<bar>a * c + b * d * k\<bar> \<le> 1"
proof -
  have 1: "\<bar>a * c\<bar> \<le> (a\<^sup>2 + c\<^sup>2) / 2"
    using sum_squares_bound [of a c] sum_squares_bound [of "-a" c] by (simp add: abs_le_iff)
  have "\<bar>b * d * k\<bar> = \<bar>b * d\<bar> * \<bar>k\<bar>" by (simp add: abs_mult)
  also have "\<dots> \<le> \<bar>b * d\<bar> * 1" using assms(3) by (intro mult_left_mono) auto
  finally have 2: "\<bar>b * d * k\<bar> \<le> \<bar>b * d\<bar>" by simp
  have 3: "\<bar>b * d\<bar> \<le> (b\<^sup>2 + d\<^sup>2) / 2"
    using sum_squares_bound [of b d] sum_squares_bound [of "-b" d] by (simp add: abs_le_iff)
  have "\<bar>a * c + b * d * k\<bar> \<le> \<bar>a * c\<bar> + \<bar>b * d * k\<bar>" by (rule abs_triangle_ineq)
  also have "\<dots> \<le> (a\<^sup>2 + c\<^sup>2) / 2 + (b\<^sup>2 + d\<^sup>2) / 2" using 1 2 3 by linarith
  also have "\<dots> = 1" using assms(1,2) by (simp add: field_simps)
  finally show ?thesis .
qed

lemma hav_range: "0 \<le> hav a b \<and> hav a b \<le> 1"
proof -
  let ?t = "sin (fst a * pi / 180) * sin (fst b * pi / 180)
      + cos (fst a * pi / 180) * cos (fst b * pi / 180) * cos ((snd b - snd a) * pi / 180)"
  have "\<bar>?t\<bar> \<le> 1" by (rule unit_dot_le_1) simp_all
  then show ?thesis unfolding hav_alt by (simp add: abs_le_iff)
qed


lemma hav_sym: "hav a b = hav b a"
proof -
  have e: "(snd b - snd a) * pi / 180 = - ((snd a - snd b) * pi / 180)"
    by (simp add: left_diff_distrib diff_divide_distrib)
  have "cos ((snd b - snd a) * pi / 180) = cos ((snd a - snd b) * pi / 180)"
    unfolding e by (rule cos_minus)
  then show ?thesis
    by (simp add: hav_alt mult.commute)
qed

lemma hav_self: "hav a a = 0"
  by (simp add: hav_def)

lemma getDistance_nonneg: "0 \<le> getDistance a b"
proof -
  have "0 \<le> sqrt (hav a b)" "sqrt (hav a b) \<le> 1"
    using hav_range [of a b] by (simp_all add: real_le_lsqrt)
  then have "0 \<le> arcsin (sqrt (hav a b))"
    by (intro arcsin_nonneg) simp
  then show ?thesis
    by (simp add: getDistance_def)
qed

lemma js_rem_range:
  assumes "0 \<le> x" "0 < y"
  shows "0 \<le> js_rem x y \<and> js_rem x y < y"
proof -
  have q: "0 \<le> x / y" using assms by simp
  have eq: "js_rem x y = y * (x / y - of_int \<lfloor>x / y\<rfloor>)"
    using assms q by (simp add: js_rem_def js_trunc_def algebra_simps)
  have "0 \<le> x / y - of_int \<lfloor>x / y\<rfloor>" "x / y - of_int \<lfloor>x / y\<rfloor> < 1"
    by linarith+
  then show ?thesis
    unfolding eq using assms(2) by (simp add: zero_le_mult_iff)
qed

lemma atan2_range: "- pi < atan2 y x \<and> atan2 y x \<le> pi"
proof -
  have b: "- (pi / 2) < arctan (y / x)" "arctan (y / x) < pi / 2"
    by (rule arctan_lbound, rule arctan_ubound)
  have p: "0 < pi" by simp
  consider "0 < x" | "x < 0" "0 \<le> y" | "x < 0" "y < 0" | "x = 0"
    by linarith
  then show ?thesis
  proof cases
    case 1
    then have "atan2 y x = arctan (y / x)" by (simp add: atan2_def)
    then show ?thesis using b p by linarith
  next
    case 2
    then have "y / x \<le> 0" by (simp add: divide_nonneg_neg)
    then have "arctan (y / x) \<le> 0" by simp
    moreover have "atan2 y x = arctan (y / x) + pi" using 2 by (simp add: atan2_def)
    ultimately show ?thesis using b p by linarith
  next
    case 3
    then have "0 < y / x" by (simp add: divide_neg_neg)
    then have "0 < arctan (y / x)" by simp
    moreover have "atan2 y x = arctan (y / x) - pi" using 3 by (simp add: atan2_def)
    ultimately show ?thesis using b p by linarith
  next
    case 4
    then have "atan2 y x = pi / 2 \<or> atan2 y x = - (pi / 2) \<or> atan2 y x = 0"
      by (simp add: atan2_def)
    then show ?thesis using p by linarith
  qed
qed

lemma toDeg_atan2_range: "- 180 < toDeg (atan2 y x) \<and> toDeg (atan2 y x) \<le> 180"
proof -
  have p: "0 < pi" by simp
  from atan2_range [of y x] show ?thesis
    unfolding toDeg_def using p by (simp add: field_simps)
qed

lemma getBearing_range: "0 \<le> getBearing A B \<and> getBearing A B < 360"
proof -
  define t where "t = toDeg (atan2 (sin (toRad (snd B - snd A)) * cos (toRad (fst B)))
     (cos (toRad (fst A)) * sin (toRad (fst B))
        - sin (toRad (fst A)) * cos (toRad (fst B)) * cos (toRad (snd B - snd A))))"
  have "- 180 < t" unfolding t_def using toDeg_atan2_range by blast
  then have "0 \<le> t + 360" by simp
  then have "0 \<le> js_rem (t + 360) 360 \<and> js_rem (t + 360) 360 < 360"
    by (intro js_rem_range) simp_all
  then show ?thesis
    by (simp add: getBearing_def Let_def t_def)
qed

lemma getBearing_self: "getBearing A A = 0"
proof -
  have 1: "atan2 0 0 = 0" by (simp add: atan2_def)
  have 2: "js_rem 360 360 = 0" by (simp add: js_rem_def js_trunc_def)
  have x: "cos (toRad (fst A)) * sin (toRad (fst A))
        - sin (toRad (fst A)) * cos (toRad (fst A)) * cos (toRad (snd A - snd A)) = 0"
    by (simp add: toRad_def)
  have y: "sin (toRad (snd A - snd A)) * cos (toRad (fst A)) = 0"
    by (simp add: toRad_def)
  show ?thesis
    unfolding getBearing_def Let_def x y 1 by (simp add: toDeg_def 2)
qed

text \<open>
  Claim C9. For all coordinates \<open>a\<close> and \<open>b\<close> the bearing of \<^verbatim>\<open>getBearing\<close> lies in
  \<open>[0, 360)\<close>, and the degenerate bearing from a coordinate to itself is the one value \<open>0\<close>.
\<close>

theorem getBearing_in_range_and_degenerate:
  "0 \<le> getBearing a b \<and> getBearing a b < 360 \<and> getBearing a a = 0"
  using getBearing_range [of a b] getBearing_self [of a] by simp

section \<open>Properties of the Route Loader\<close>

lemma roundTrip_length: "length (roundTrip data) = length data + 1"
  by (simp add: roundTrip_def Let_def)

lemma roundTrip_nth:
  "i < length data \<Longrightarrow> roundTrip data ! i = Some (latitude (data ! i), longitude (data ! i))"
  by (simp add: roundTrip_def Let_def nth_append)

lemma roundTrip_last: "roundTrip data ! length data = js_at (roundTrip data) 0"
  by (cases data) (simp_all add: roundTrip_def Let_def js_at_def nth_append)

lemma roundTrip_take:
  "take (length data) (roundTrip data) = map (\<lambda>p. Some (latitude p, longitude p)) data"
  by (simp add: roundTrip_def Let_def)

text \<open>
  Claim C3. For every list of \<open>N\<close> waypoint records the route the loader stores has length
  \<open>N + 1\<close>, its first element equals its last (the element at index \<open>N\<close>), and its first
  \<open>N\<close> elements are the records converted to \<open>(latitude, longitude)\<close> in order.
\<close>

theorem roundTrip_closes_the_loop:
  "length (route (fetchRoute (Resolved data) s)) = length data + 1
   \<and> route (fetchRoute (Resolved data) s) ! 0 = route (fetchRoute (Resolved data) s) ! length data
   \<and> take (length data) (route (fetchRoute (Resolved data) s))
       = map (\<lambda>p. Some (latitude p, longitude p)) data
   \<and> route (fetchRoute (Resolved data) s) = roundTrip data"
proof -
  have r: "route (fetchRoute (Resolved data) s) = roundTrip data"
    by (simp add: fetchRoute_def routeLoaded_def afterRender_def playbackEffect_def)
  show ?thesis
    unfolding r by (simp add: roundTrip_length roundTrip_last roundTrip_take js_at_def)
qed

section \<open>Properties of the Playback Engine\<close>

text \<open>
  Claim C5. From any state, Reset yields a state that a second Reset leaves as it is; it is
  stopped (not playing, no interval scheduled), at segment \<open>0\<close> with progress \<open>0\<close>, the
  visited path is the first route element alone, the distance covered is \<open>0\<close> and the car
  is rotated by \<open>0\<close> degrees.
\<close>

theorem clickReset_idempotent:
  "clickReset (clickReset s) = clickReset s
   \<and> isPlaying (clickReset s) = False
   \<and> intervalRef (clickReset s) = False
   \<and> segmentIndexRef (clickReset s) = 0
   \<and> currentIndex (clickReset s) = 0
   \<and> progressRef (clickReset s) = 0
   \<and> visitedPath (clickReset s) = [js_at (route s) 0]
   \<and> currentPos (clickReset s) = js_at (route s) 0
   \<and> distanceCovered (clickReset s) = 0
   \<and> carRotation (clickReset s) = 0"
  by (simp add: clickReset_def afterRender_def playbackEffect_def)

subsection \<open>One tick\<close>

lemma tick_completion:
  assumes "js_at (route s) (segmentIndexRef s + 1) = None"
  shows "tick s = Inr (s\<lparr>intervalRef := False, alerts := alerts s + 1\<rparr>)"
  using assms by (simp add: tick_def Let_def)

lemma js_at_beyond: "length xs \<le> i \<Longrightarrow> js_at xs i = None"
  by (simp add: js_at_def)

lemma tick_segment:
  assumes "js_at (route s) (segmentIndexRef s) = Some st"
    and "js_at (route s) (segmentIndexRef s + 1) = Some e"
  shows "tick s =
    Inr (if 1 \<le> progressRef s + step
         then s\<lparr>currentPos := Some (interpolate st e (progressRef s)),
                visitedPath := visitedPath s @ [Some (interpolate st e (progressRef s))],
                carRotation := js_rem (getBearing st e - 90 + 90) 360,
                progressRef := 0,
                segmentIndexRef := segmentIndexRef s + 1,
                currentIndex := segmentIndexRef s + 1,
                distanceCovered := distanceCovered s + getDistance st e * 1000\<rparr>
         else s\<lparr>currentPos := Some (interpolate st e (progressRef s)),
                visitedPath := visitedPath s @ [Some (interpolate st e (progressRef s))],
                carRotation := js_rem (getBearing st e - 90 + 90) 360,
                progressRef := progressRef s + step\<rparr>)"
  using assms by (simp add: tick_def Let_def)

lemma ticks_add: "ticks (m + n) s = ticks n (ticks m s)"
  by (induction m arbitrary: s) simp_all

lemma ticks_Suc_right: "ticks (Suc n) s = intervalFires (ticks n s)"
  using ticks_add [of n 1 s] by simp

text \<open>
  Claim C10. When the callback runs with \<open>segmentIndex + 1\<close> out of range of the route, it
  clears the interval and alerts once; segment index, progress, current position, visited
  path and distance covered are as before.
\<close>

theorem completion_tick_frame:
  assumes "length (route s) \<le> segmentIndexRef s + 1"
  shows "\<exists>s'. tick s = Inr s'
          \<and> segmentIndexRef s' = segmentIndexRef s
          \<and> progressRef s' = progressRef s
          \<and> currentPos s' = currentPos s
          \<and> visitedPath s' = visitedPath s
          \<and> distanceCovered s' = distanceCovered s
          \<and> intervalRef s' = False
          \<and> alerts s' = alerts s + 1"
  by (simp add: tick_completion [OF js_at_beyond [OF assms]])

theorem completion_tick_frame_witness:
  "length (route (initial\<lparr>route := roundTrip demoData, segmentIndexRef := 2\<rparr>))
     \<le> segmentIndexRef (initial\<lparr>route := roundTrip demoData, segmentIndexRef := 2\<rparr>) + 1
   \<and> (\<exists>s'. tick (initial\<lparr>route := roundTrip demoData, segmentIndexRef := 2\<rparr>) = Inr s'
          \<and> segmentIndexRef s' = 2 \<and> progressRef s' = 0 \<and> currentPos s' = Some (0, 0)
          \<and> visitedPath s' = [] \<and> distanceCovered s' = 0
          \<and> intervalRef s' = False \<and> alerts s' = 1)"
proof -
  have h: "length (route (initial\<lparr>route := roundTrip demoData, segmentIndexRef := 2\<rparr>))
     \<le> segmentIndexRef (initial\<lparr>route := roundTrip demoData, segmentIndexRef := 2\<rparr>) + 1"
    by (simp add: roundTrip_length demoData_def)
  from completion_tick_frame [OF h] show ?thesis
    using h by (simp add: initial_def)
qed

subsection \<open>The ticks of one segment\<close>

lemma intervalFires_segment:
  assumes "intervalRef s"
    and "js_at (route s) (segmentIndexRef s) = Some st"
    and "js_at (route s) (segmentIndexRef s + 1) = Some e"
  shows "intervalFires s =
        (if 1 \<le> progressRef s + step
         then s\<lparr>currentPos := Some (interpolate st e (progressRef s)),
                visitedPath := visitedPath s @ [Some (interpolate st e (progressRef s))],
                carRotation := js_rem (getBearing st e - 90 + 90) 360,
                progressRef := 0,
                segmentIndexRef := segmentIndexRef s + 1,
                currentIndex := segmentIndexRef s + 1,
                distanceCovered := distanceCovered s + getDistance st e * 1000\<rparr>
         else s\<lparr>currentPos := Some (interpolate st e (progressRef s)),
                visitedPath := visitedPath s @ [Some (interpolate st e (progressRef s))],
                carRotation := js_rem (getBearing st e - 90 + 90) 360,
                progressRef := progressRef s + step\<rparr>)"
  using assms(1) by (simp add: intervalFires_def tick_segment [OF assms(2,3)])

lemma step_below: "k < 49 \<Longrightarrow> \<not> 1 \<le> real k * step + step"
proof -
  assume "k < 49"
  then have "real k \<le> 48" by simp
  then show ?thesis by (simp add: step_def)
qed

lemma step_reaches: "1 \<le> real 49 * step + step"
  by (simp add: step_def)

lemma ticks_within_segment:
  assumes "intervalRef s" and "progressRef s = 0"
    and "js_at (route s) (segmentIndexRef s) = Some st"
    and "js_at (route s) (segmentIndexRef s + 1) = Some e"
    and "k \<le> 49"
  shows "ticks k s =
     s\<lparr>currentPos := (if k = 0 then currentPos s
                       else Some (interpolate st e (real (k - 1) * step))),
       visitedPath := visitedPath s @ map (\<lambda>j. Some (interpolate st e (real j * step))) [0..<k],
       carRotation := (if k = 0 then carRotation s
                       else js_rem (getBearing st e - 90 + 90) 360),
       progressRef := real k * step\<rparr>"
  using assms(5)
proof (induction k)
  case 0
  then show ?case using assms(2) by simp
next
  case (Suc k)
  let ?S = "ticks k s"
  have S: "?S = s\<lparr>currentPos := (if k = 0 then currentPos s
                       else Some (interpolate st e (real (k - 1) * step))),
       visitedPath := visitedPath s @ map (\<lambda>j. Some (interpolate st e (real j * step))) [0..<k],
       carRotation := (if k = 0 then carRotation s
                       else js_rem (getBearing st e - 90 + 90) 360),
       progressRef := real k * step\<rparr>"
    using Suc by simp
  have a: "intervalRef ?S" "js_at (route ?S) (segmentIndexRef ?S) = Some st"
    "js_at (route ?S) (segmentIndexRef ?S + 1) = Some e"
    using assms(1,3,4) by (simp_all add: S)
  have p: "progressRef ?S = real k * step" by (simp add: S)
  have nb: "\<not> 1 \<le> real k * step + step" using Suc.prems by (intro step_below) simp
  have "ticks (Suc k) s = intervalFires ?S" by (rule ticks_Suc_right)
  also have "\<dots> = ?S\<lparr>currentPos := Some (interpolate st e (real k * step)),
                visitedPath := visitedPath ?S @ [Some (interpolate st e (real k * step))],
                carRotation := js_rem (getBearing st e - 90 + 90) 360,
                progressRef := real k * step + step\<rparr>"
    using nb by (simp add: intervalFires_segment [OF a] p)
  also have "\<dots> = s\<lparr>currentPos := Some (interpolate st e (real k * step)),
       visitedPath := visitedPath s @ map (\<lambda>j. Some (interpolate st e (real j * step))) [0..<Suc k],
       carRotation := js_rem (getBearing st e - 90 + 90) 360,
       progressRef := real (Suc k) * step\<rparr>"
    by (simp add: S algebra_simps)
  finally show ?case by simp
qed

lemma ticks_segment_complete:
  assumes "intervalRef s" and "progressRef s = 0"
    and "js_at (route s) (segmentIndexRef s) = Some st"
    and "js_at (route s) (segmentIndexRef s + 1) = Some e"
  shows "ticks 50 s =
     s\<lparr>currentPos := Some (interpolate st e (49 * step)),
       visitedPath := visitedPath s @ map (\<lambda>j. Some (interpolate st e (real j * step))) [0..<50],
       carRotation := js_rem (getBearing st e - 90 + 90) 360,
       progressRef := 0,
       segmentIndexRef := segmentIndexRef s + 1,
       currentIndex := segmentIndexRef s + 1,
       distanceCovered := distanceCovered s + getDistance st e * 1000\<rparr>"
proof -
  let ?S = "ticks 49 s"
  have S: "?S = s\<lparr>currentPos := Some (interpolate st e (48 * step)),
       visitedPath := visitedPath s @ map (\<lambda>j. Some (interpolate st e (real j * step))) [0..<49],
       carRotation := js_rem (getBearing st e - 90 + 90) 360,
       progressRef := 49 * step\<rparr>"
    using ticks_within_segment [OF assms, of 49] by simp
  have a: "intervalRef ?S" "js_at (route ?S) (segmentIndexRef ?S) = Some st"
    "js_at (route ?S) (segmentIndexRef ?S + 1) = Some e"
    using assms(1,3,4) by (simp_all add: S)
  have p: "progressRef ?S = 49 * step" by (simp add: S)
  have up: "[0..<50] = [0..<49] @ [49]"
    using upt_Suc_append [of 0 49] by simp
  have "ticks 50 s = intervalFires ?S"
    using ticks_Suc_right [of 49 s] by simp
  also have "\<dots> = ?S\<lparr>currentPos := Some (interpolate st e (49 * step)),
                visitedPath := visitedPath ?S @ [Some (interpolate st e (49 * step))],
                carRotation := js_rem (getBearing st e - 90 + 90) 360,
                progressRef := 0,
                segmentIndexRef := segmentIndexRef ?S + 1,
                currentIndex := segmentIndexRef ?S + 1,
                distanceCovered := distanceCovered ?S + getDistance st e * 1000\<rparr>"
    using step_reaches by (simp add: intervalFires_segment [OF a] p)
  also have "\<dots> = s\<lparr>currentPos := Some (interpolate st e (49 * step)),
       visitedPath := visitedPath s @ map (\<lambda>j. Some (interpolate st e (real j * step))) [0..<50],
       carRotation := js_rem (getBearing st e - 90 + 90) 360,
       progressRef := 0,
       segmentIndexRef := segmentIndexRef s + 1,
       currentIndex := segmentIndexRef s + 1,
       distanceCovered := distanceCovered s + getDistance st e * 1000\<rparr>"
    by (simp add: S up)
  finally show ?thesis .
qed

text \<open>
  In binary64 too the counter reaches \<^verbatim>\<open>1\<close> at the 50th tick of a segment and not
  before: the sum of fifty roundings is \<open>1 + 2\<^sup>-\<^sup>5\<^sup>1\<close>.
\<close>

lemma b64_step_nearest:
  "2 ^ 52 \<le> b64_step \<and> b64_step < 2 ^ 53
   \<and> \<bar>real_of_int b64_step / 2 ^ 58 - 0.02\<bar> < 1 / 2 ^ 59"
  by (simp add: b64_step_def abs_less_iff)

lemma b64_wrap_at_50: "b64_wrap 100 0 0 = Some 50"
  by code_simp

subsection \<open>The example route\<close>

text \<open>
  The distance of the example is \<open>6371 \<pi> / 180\<close> km; Machin's formula and the alternating
  series of the arc tangent enclose \<open>\<pi>\<close> closely enough to bound it in metres.
\<close>

lemma arctan_enclosure:
  fixes x :: real
  assumes "0 < x" "x \<le> 1"
  shows "(\<Sum>i<2 * n. (- 1) ^ i * (1 / real (i * 2 + 1) * x ^ (i * 2 + 1))) \<le> arctan x"
    and "arctan x \<le> (\<Sum>i<2 * n + 1. (- 1) ^ i * (1 / real (i * 2 + 1) * x ^ (i * 2 + 1)))"
proof -
  have h: "\<bar>x\<bar> \<le> 1" using assms by simp
  have pos: "0 < 1 / real (0 * 2 + 1) * x ^ (0 * 2 + 1)" using assms by simp
  from summable_Leibniz(2) [OF zeroseq_arctan_series [OF h] monoseq_arctan_series [OF h]] pos
  have "(\<Sum>i. (- 1) ^ i * (1 / real (i * 2 + 1) * x ^ (i * 2 + 1)))
      \<in> {\<Sum>i<2 * n. (- 1) ^ i * (1 / real (i * 2 + 1) * x ^ (i * 2 + 1)) ..
         \<Sum>i<2 * n + 1. (- 1) ^ i * (1 / real (i * 2 + 1) * x ^ (i * 2 + 1))}"
    by blast
  then show "(\<Sum>i<2 * n. (- 1) ^ i * (1 / real (i * 2 + 1) * x ^ (i * 2 + 1))) \<le> arctan x"
    and "arctan x \<le> (\<Sum>i<2 * n + 1. (- 1) ^ i * (1 / real (i * 2 + 1) * x ^ (i * 2 + 1)))"
    unfolding arctan_series [OF h] by simp_all
qed

lemma arctan_fifth_lower: "(1 / 5 - 1 / 375 + 1 / 15625 - 1 / 546875 :: real) \<le> arctan (1 / 5)"
  using arctan_enclosure(1) [of "1 / 5" 2]
  by (simp add: eval_nat_numeral)

lemma arctan_fifth_upper:
  "arctan (1 / 5) \<le> (1 / 5 - 1 / 375 + 1 / 15625 - 1 / 546875 + 1 / 17578125 :: real)"
  using arctan_enclosure(2) [of "1 / 5" 2]
  by (simp add: eval_nat_numeral)

lemma arctan_239_lower: "(1 / 239 - 1 / 40955757 :: real) \<le> arctan (1 / 239)"
  using arctan_enclosure(1) [of "1 / 239" 1]
  by (simp add: eval_nat_numeral)

lemma arctan_239_upper: "arctan (1 / 239) \<le> (1 / 239 :: real)"
  using arctan_enclosure(2) [of "1 / 239" 0]
  by simp

lemma pi_enclosure: "3.14159 < pi \<and> pi < 3.1416"
proof -
  have "pi = 16 * arctan (1 / 5) - 4 * arctan (1 / 239)"
    using machin by simp
  then show ?thesis
    using arctan_fifth_lower arctan_fifth_upper arctan_239_lower arctan_239_upper
    by simp
qed

lemma demo_route: "roundTrip demoData = [Some (0, 0), Some (0, 1), Some (0, 0)]"
  by (simp add: roundTrip_def demoData_def js_at_def Let_def)

lemma demoStart_eq:
  "demoStart =
     \<lparr>route = [Some (0, 0), Some (0, 1), Some (0, 0)], currentIndex = 0, isPlaying = True,
      visitedPath = [Some (0, 0)], currentPos = Some (0, 0), speed = 1, distanceCovered = 0,
      segmentIndexRef = 0, progressRef = 0, intervalRef = True, carRotation = 0, alerts = 0\<rparr>"
  by (simp add: demoStart_def clickPlayPause_def fetchRoute_def routeLoaded_def afterRender_def
      playbackEffect_def initial_def demo_route js_at_def)

lemma demo_distance: "getDistance (0, 0) (0, 1) = 6371 * pi / 180"
proof -
  have p: "0 < pi" by simp
  have h: "hav (0, 0) (0, 1) = (sin (pi / 360))\<^sup>2"
    by (simp add: hav_def)
  have s0: "0 \<le> sin (pi / 360)"
    using p by (intro sin_ge_zero) simp_all
  have "sqrt (hav (0, 0) (0, 1)) = sin (pi / 360)"
    using s0 by (simp add: h)
  moreover have "arcsin (sin (pi / 360)) = pi / 360"
    using p by (intro arcsin_sin) simp_all
  ultimately show ?thesis
    by (simp add: getDistance_def)
qed

lemma demo_distance_metres: "\<bar>getDistance (0, 0) (0, 1) * 1000 - 111195\<bar> < 1"
  using pi_enclosure by (simp add: demo_distance abs_less_iff)

lemma toFixed1_50: "toFixed1 50 = 50"
  by (simp add: toFixed1_def)

lemma demo_after_50:
  "segmentIndexRef (ticks 50 demoStart) = 1
   \<and> currentIndex (ticks 50 demoStart) = 1
   \<and> progressRef (ticks 50 demoStart) = 0
   \<and> route (ticks 50 demoStart) = [Some (0, 0), Some (0, 1), Some (0, 0)]
   \<and> distanceCovered (ticks 50 demoStart) = getDistance (0, 0) (0, 1) * 1000"
proof -
  have a: "intervalRef demoStart" "progressRef demoStart = 0"
    "js_at (route demoStart) (segmentIndexRef demoStart) = Some (0, 0)"
    "js_at (route demoStart) (segmentIndexRef demoStart + 1) = Some (0, 1)"
    by (simp_all add: demoStart_eq js_at_def)
  show ?thesis
    by (simp add: ticks_segment_complete [OF a]) (simp add: demoStart_eq)
qed

lemma demo_progressPercent: "progressPercent (ticks 50 demoStart) = Some 50"
  using demo_after_50 by (simp add: progressPercent_def toFixed1_50)

lemma tick_segment_fields:
  assumes "js_at (route s) (segmentIndexRef s) = Some start"
    and "js_at (route s) (segmentIndexRef s + 1) = Some end'"
  shows "\<exists>s'. tick s = Inr s'
      \<and> currentPos s' = Some (fst start + (fst end' - fst start) * progressRef s,
                              snd start + (snd end' - snd start) * progressRef s)
      \<and> visitedPath s' = visitedPath s @ [currentPos s']
      \<and> (if 1 \<le> progressRef s + 0.02
         then progressRef s' = 0 \<and> segmentIndexRef s' = segmentIndexRef s + 1
              \<and> distanceCovered s' = distanceCovered s + getDistance start end' * 1000
         else progressRef s' = progressRef s + 0.02 \<and> segmentIndexRef s' = segmentIndexRef s
              \<and> distanceCovered s' = distanceCovered s)"
  by (simp add: tick_segment [OF assms] interpolate_def step_def Let_def)

lemma fifty_ticks_fields:
  assumes "js_at (route s) (segmentIndexRef s) = Some start"
    and "js_at (route s) (segmentIndexRef s + 1) = Some end'"
    and "intervalRef s" and "progressRef s = 0"
  shows "(\<forall>k<50. segmentIndexRef (ticks k s) = segmentIndexRef s
                \<and> distanceCovered (ticks k s) = distanceCovered s
                \<and> progressRef (ticks k s) = real k * 0.02)
      \<and> segmentIndexRef (ticks 50 s) = segmentIndexRef s + 1
      \<and> progressRef (ticks 50 s) = 0
      \<and> distanceCovered (ticks 50 s) = distanceCovered s + getDistance start end' * 1000"
proof -
  have "segmentIndexRef (ticks k s) = segmentIndexRef s
       \<and> distanceCovered (ticks k s) = distanceCovered s
       \<and> progressRef (ticks k s) = real k * 0.02" if "k < 50" for k
  proof -
    from that have "k \<le> 49" by simp
    from ticks_within_segment [OF assms(3,4,1,2) this] show ?thesis
      by (simp add: step_def)
  qed
  then show ?thesis
    by (simp add: ticks_segment_complete [OF assms(3,4,1,2)])
qed

text \<open>
  Claim C2. On a segment whose two ends are in the route, a tick computes the position
  \<open>start + (end - start) * progress\<close>, appends it to the visited path and advances the
  progress by 0.02; when the progress reaches 1 it is reset to 0, the segment index grows by
  one and the distance of the segment, times 1000, is added to the distance covered. From
  progress 0 this happens at the 50th tick and at no earlier one, so once per segment. For
  the route \<open>[[0,0],[0,1],[0,0]]\<close>, after 50 ticks the segment index is 1, the distance
  covered is within one metre of 111195 and the progress is 50 percent.
\<close>

theorem tick_advances_along_segment:
  assumes "js_at (route s) (segmentIndexRef s) = Some start"
    and "js_at (route s) (segmentIndexRef s + 1) = Some end'"
  shows "(\<exists>s'. tick s = Inr s'
      \<and> currentPos s' = Some (fst start + (fst end' - fst start) * progressRef s,
                              snd start + (snd end' - snd start) * progressRef s)
      \<and> visitedPath s' = visitedPath s @ [currentPos s']
      \<and> (if 1 \<le> progressRef s + 0.02
         then progressRef s' = 0 \<and> segmentIndexRef s' = segmentIndexRef s + 1
              \<and> distanceCovered s' = distanceCovered s + getDistance start end' * 1000
         else progressRef s' = progressRef s + 0.02 \<and> segmentIndexRef s' = segmentIndexRef s
              \<and> distanceCovered s' = distanceCovered s))
    \<and> (intervalRef s \<and> progressRef s = 0 \<longrightarrow>
         (\<forall>k<50. segmentIndexRef (ticks k s) = segmentIndexRef s
                \<and> distanceCovered (ticks k s) = distanceCovered s
                \<and> progressRef (ticks k s) = real k * 0.02)
         \<and> segmentIndexRef (ticks 50 s) = segmentIndexRef s + 1
         \<and> progressRef (ticks 50 s) = 0
         \<and> distanceCovered (ticks 50 s) = distanceCovered s + getDistance start end' * 1000)
    \<and> (route demoStart = [Some (0, 0), Some (0, 1), Some (0, 0)]
         \<and> segmentIndexRef (ticks 50 demoStart) = 1
         \<and> \<bar>distanceCovered (ticks 50 demoStart) - 111195\<bar> < 1
         \<and> progressPercent (ticks 50 demoStart) = Some 50)"
proof -
  have ex: "route demoStart = [Some (0, 0), Some (0, 1), Some (0, 0)]
         \<and> segmentIndexRef (ticks 50 demoStart) = 1
         \<and> \<bar>distanceCovered (ticks 50 demoStart) - 111195\<bar> < 1
         \<and> progressPercent (ticks 50 demoStart) = Some 50"
    using demo_after_50 demo_distance_metres demo_progressPercent
    by (simp add: demoStart_eq)
  show ?thesis
    using tick_segment_fields [OF assms] fifty_ticks_fields [OF assms] ex by blast
qed

theorem tick_advances_along_segment_witness:
  "js_at (route demoStart) (segmentIndexRef demoStart) = Some (0, 0)
   \<and> js_at (route demoStart) (segmentIndexRef demoStart + 1) = Some (0, 1)
   \<and> intervalRef demoStart \<and> progressRef demoStart = 0
   \<and> (\<exists>s'. tick demoStart = Inr s' \<and> currentPos s' = Some (0, 0)
          \<and> visitedPath s' = [Some (0, 0), Some (0, 0)]
          \<and> progressRef s' = 0.02 \<and> segmentIndexRef s' = 0 \<and> distanceCovered s' = 0)
   \<and> segmentIndexRef (ticks 49 demoStart) = 0
   \<and> distanceCovered (ticks 49 demoStart) = 0
   \<and> segmentIndexRef (ticks 50 demoStart) = 1
   \<and> progressRef (ticks 50 demoStart) = 0
   \<and> distanceCovered (ticks 50 demoStart) = getDistance (0, 0) (0, 1) * 1000"
proof -
  have a: "js_at (route demoStart) (segmentIndexRef demoStart) = Some (0, 0)"
    "js_at (route demoStart) (segmentIndexRef demoStart + 1) = Some (0, 1)"
    by (simp_all add: demoStart_eq js_at_def)
  have b: "intervalRef demoStart" "progressRef demoStart = 0"
    "visitedPath demoStart = [Some (0, 0)]" "distanceCovered demoStart = 0"
    "segmentIndexRef demoStart = 0"
    by (simp_all add: demoStart_eq)
  from tick_advances_along_segment [OF a] show ?thesis
    using a b by auto
qed

subsection \<open>Runs of ticks\<close>

lemma intervalFires_cases:
  "intervalFires s = s
   \<or> intervalFires s = s\<lparr>intervalRef := False, alerts := alerts s + 1\<rparr>
   \<or> (\<exists>st e. js_at (route s) (segmentIndexRef s) = Some st
          \<and> js_at (route s) (segmentIndexRef s + 1) = Some e
          \<and> intervalFires s =
        (if 1 \<le> progressRef s + step
         then s\<lparr>currentPos := Some (interpolate st e (progressRef s)),
                visitedPath := visitedPath s @ [Some (interpolate st e (progressRef s))],
                carRotation := js_rem (getBearing st e - 90 + 90) 360,
                progressRef := 0,
                segmentIndexRef := segmentIndexRef s + 1,
                currentIndex := segmentIndexRef s + 1,
                distanceCovered := distanceCovered s + getDistance st e * 1000\<rparr>
         else s\<lparr>currentPos := Some (interpolate st e (progressRef s)),
                visitedPath := visitedPath s @ [Some (interpolate st e (progressRef s))],
                carRotation := js_rem (getBearing st e - 90 + 90) 360,
                progressRef := progressRef s + step\<rparr>))"
proof (cases "intervalRef s")
  case False
  then show ?thesis by (simp add: intervalFires_def)
next
  case True
  show ?thesis
  proof (cases "js_at (route s) (segmentIndexRef s + 1)")
    case None
    then show ?thesis using True by (simp add: intervalFires_def tick_completion)
  next
    case (Some e)
    show ?thesis
    proof (cases "js_at (route s) (segmentIndexRef s)")
      case None
      then have "tick s = Inl TypeError" using Some by (simp add: tick_def Let_def)
      then show ?thesis by (simp add: intervalFires_def)
    next
      case (Some st)
      from intervalFires_segment [OF True Some \<open>js_at (route s) (segmentIndexRef s + 1) = Some e\<close>]
      show ?thesis using Some \<open>js_at (route s) (segmentIndexRef s + 1) = Some e\<close> by blast
    qed
  qed
qed

lemma intervalFires_route: "route (intervalFires s) = route s"
  using intervalFires_cases [of s] by (auto split: if_splits)

lemma intervalFires_distance: "distanceCovered s \<le> distanceCovered (intervalFires s)"
proof -
  have "0 \<le> getDistance st e * 1000" for st e
    using getDistance_nonneg [of st e] by simp
  then show ?thesis
    using intervalFires_cases [of s] by (auto split: if_splits)
qed

lemma intervalFires_index:
  assumes "currentIndex s = segmentIndexRef s"
  shows "currentIndex s \<le> currentIndex (intervalFires s)
     \<and> currentIndex (intervalFires s) = segmentIndexRef (intervalFires s)"
  using intervalFires_cases [of s] assms by (auto split: if_splits)

lemma ticks_monotone:
  assumes "currentIndex s = segmentIndexRef s"
  shows "route (ticks k s) = route s
     \<and> distanceCovered s \<le> distanceCovered (ticks k s)
     \<and> currentIndex s \<le> currentIndex (ticks k s)
     \<and> currentIndex (ticks k s) = segmentIndexRef (ticks k s)"
  using assms
proof (induction k arbitrary: s)
  case 0
  then show ?case by simp
next
  case (Suc k)
  from intervalFires_index [OF Suc.prems]
  have i: "currentIndex s \<le> currentIndex (intervalFires s)"
    and j: "currentIndex (intervalFires s) = segmentIndexRef (intervalFires s)"
    by simp_all
  from Suc.IH [OF j] intervalFires_route [of s] intervalFires_distance [of s] i
  show ?case by simp
qed








lemma run_ticks: "run (replicate n Tick) s = ticks n s"
  by (induction n arbitrary: s) simp_all






subsection \<open>The example route played to its end\<close>

lemma ticks_idle: "\<not> intervalRef s \<Longrightarrow> ticks n s = s"
  by (induction n) (simp_all add: intervalFires_def)

lemma demo_50:
  "ticks 50 demoStart =
     demoStart\<lparr>currentPos := Some (interpolate (0, 0) (0, 1) (49 * step)),
       visitedPath := visitedPath demoStart
          @ map (\<lambda>j. Some (interpolate (0, 0) (0, 1) (real j * step))) [0..<50],
       carRotation := js_rem (getBearing (0, 0) (0, 1) - 90 + 90) 360,
       progressRef := 0,
       segmentIndexRef := 1,
       currentIndex := 1,
       distanceCovered := getDistance (0, 0) (0, 1) * 1000\<rparr>"
proof -
  have a: "intervalRef demoStart" "progressRef demoStart = 0"
    "js_at (route demoStart) (segmentIndexRef demoStart) = Some (0, 0)"
    "js_at (route demoStart) (segmentIndexRef demoStart + 1) = Some (0, 1)"
    by (simp_all add: demoStart_eq js_at_def)
  have b: "segmentIndexRef demoStart = 0" "distanceCovered demoStart = 0"
    by (simp_all add: demoStart_eq)
  show ?thesis
    unfolding ticks_segment_complete [OF a] b by simp
qed

lemma demo_100_fields:
  "segmentIndexRef (ticks 100 demoStart) = 2
   \<and> currentIndex (ticks 100 demoStart) = 2
   \<and> progressRef (ticks 100 demoStart) = 0
   \<and> intervalRef (ticks 100 demoStart)
   \<and> isPlaying (ticks 100 demoStart)
   \<and> alerts (ticks 100 demoStart) = 0
   \<and> speed (ticks 100 demoStart) = 1
   \<and> route (ticks 100 demoStart) = [Some (0, 0), Some (0, 1), Some (0, 0)]"
proof -
  let ?h = "ticks 50 demoStart"
  have a: "intervalRef ?h" "progressRef ?h = 0"
    "js_at (route ?h) (segmentIndexRef ?h) = Some (0, 1)"
    "js_at (route ?h) (segmentIndexRef ?h + 1) = Some (0, 0)"
    unfolding demo_50 by (simp_all add: demoStart_eq js_at_def)
  have f: "segmentIndexRef ?h = 1" "isPlaying ?h" "alerts ?h = 0" "speed ?h = 1"
    "route ?h = [Some (0, 0), Some (0, 1), Some (0, 0)]"
    unfolding demo_50 by (simp_all add: demoStart_eq)
  have "ticks 100 demoStart = ticks 50 ?h"
    using ticks_add [of 50 50 demoStart] by simp
  then show ?thesis
    unfolding ticks_segment_complete [OF a] using a(1) f by simp
qed

lemma demo_101:
  "ticks 101 demoStart = (ticks 100 demoStart)\<lparr>intervalRef := False, alerts := 1\<rparr>"
proof -
  let ?h = "ticks 100 demoStart"
  have e: "js_at (route ?h) (segmentIndexRef ?h + 1) = None"
    using demo_100_fields by (simp add: js_at_def)
  have "ticks 101 demoStart = intervalFires ?h"
    using ticks_Suc_right [of 100 demoStart] by simp
  then show ?thesis
    using demo_100_fields by (simp add: intervalFires_def tick_completion [OF e])
qed

text \<open>
  Claim C1, evaluated on the example route. The 101st tick finds \<open>segmentIndex + 1\<close> out of
  range: it alerts once and clears the interval, and no later period of the interval changes
  anything. It does not write \<^verbatim>\<open>isPlaying\<close>, which stays true, so the effect schedules the
  interval again when the speed changes, and the next tick alerts a second time.
\<close>

theorem completion_leaves_isPlaying_set:
  "alerts (ticks 100 demoStart) = 0
   \<and> segmentIndexRef (ticks 100 demoStart) + 1 = length (route (ticks 100 demoStart))
   \<and> alerts (ticks 101 demoStart) = 1
   \<and> intervalRef (ticks 101 demoStart) = False
   \<and> isPlaying (ticks 101 demoStart) = True
   \<and> (\<forall>n. ticks (101 + n) demoStart = ticks 101 demoStart)
   \<and> alerts (intervalFires (changeSpeed 2 (ticks 101 demoStart))) = 2"
proof -
  let ?e = "ticks 101 demoStart"
  have f: "alerts ?e = 1" "intervalRef ?e = False" "isPlaying ?e = True" "speed ?e = 1"
    "segmentIndexRef ?e = 2" "route ?e = [Some (0, 0), Some (0, 1), Some (0, 0)]"
    unfolding demo_101 using demo_100_fields by simp_all
  have idle: "ticks (101 + n) demoStart = ?e" for n
    unfolding ticks_add using f(2) by (intro ticks_idle) simp
  let ?c = "changeSpeed 2 ?e"
  have c: "intervalRef ?c" "alerts ?c = 1" "js_at (route ?c) (segmentIndexRef ?c + 1) = None"
    using f by (auto simp: changeSpeed_def afterRender_def playbackEffect_def js_at_def)
  have "alerts (intervalFires ?c) = 2"
    using c(1,2) by (simp add: intervalFires_def tick_completion [OF c(3)])
  then show ?thesis
    using f demo_100_fields idle by simp
qed

subsection \<open>Play at the end of the route\<close>

lemma demo_paused_at_end:
  "length (route (clickPlayPause (ticks 101 demoStart)))
     \<le> segmentIndexRef (clickPlayPause (ticks 101 demoStart)) + 1
   \<and> \<not> isPlaying (clickPlayPause (ticks 101 demoStart))
   \<and> 1 < length (route (clickPlayPause (ticks 101 demoStart)))
   \<and> alerts (clickPlayPause (ticks 101 demoStart)) = 1"
  unfolding demo_101 using demo_100_fields
  by (simp add: clickPlayPause_def afterRender_def playbackEffect_def)

lemma play_at_end:
  assumes "length (route s) \<le> segmentIndexRef s + 1" and "\<not> isPlaying s"
    and "1 < length (route s)"
  shows "clickPlayPause s = s\<lparr>isPlaying := True, intervalRef := True\<rparr>"
    and "intervalFires (clickPlayPause s)
      = s\<lparr>isPlaying := True, intervalRef := False, alerts := alerts s + 1\<rparr>"
proof -
  show c: "clickPlayPause s = s\<lparr>isPlaying := True, intervalRef := True\<rparr>"
    using assms(2,3) by (simp add: clickPlayPause_def afterRender_def playbackEffect_def)
  have e: "js_at (route (clickPlayPause s)) (segmentIndexRef (clickPlayPause s) + 1) = None"
    unfolding c using assms(1) by (simp add: js_at_def)
  show "intervalFires (clickPlayPause s)
      = s\<lparr>isPlaying := True, intervalRef := False, alerts := alerts s + 1\<rparr>"
    by (simp add: intervalFires_def tick_completion [OF e]) (simp add: c)
qed

text \<open>
  Claim C7 says that Play at the end of the route changes nothing. On the example route,
  paused after its completion, the click sets \<^verbatim>\<open>isPlaying\<close> and the next tick alerts again.
\<close>

theorem play_at_end_is_not_a_noop:
  "length (route (clickPlayPause (ticks 101 demoStart)))
     \<le> segmentIndexRef (clickPlayPause (ticks 101 demoStart)) + 1
   \<and> isPlaying (clickPlayPause (ticks 101 demoStart)) = False
   \<and> clickPlayPause (clickPlayPause (ticks 101 demoStart)) \<noteq> clickPlayPause (ticks 101 demoStart)
   \<and> isPlaying (clickPlayPause (clickPlayPause (ticks 101 demoStart))) = True
   \<and> alerts (clickPlayPause (ticks 101 demoStart)) = 1
   \<and> alerts (intervalFires (clickPlayPause (clickPlayPause (ticks 101 demoStart)))) = 2"
proof -
  let ?E = "clickPlayPause (ticks 101 demoStart)"
  from demo_paused_at_end have a: "length (route ?E) \<le> segmentIndexRef ?E + 1"
    "\<not> isPlaying ?E" "1 < length (route ?E)" and al: "alerts ?E = 1"
    by simp_all
  have p: "isPlaying (clickPlayPause ?E) = True"
    unfolding play_at_end(1) [OF a] by simp
  then have ne: "clickPlayPause ?E \<noteq> ?E" using a(2) by auto
  have "alerts (intervalFires (clickPlayPause ?E)) = 2"
    unfolding play_at_end(2) [OF a] using al by simp
  then show ?thesis using a al p ne by simp
qed

text \<open>
  Claim C7, amended. Play in a paused state at the end of a loaded route sets
  \<^verbatim>\<open>isPlaying\<close> and schedules the interval, and changes nothing else; the first tick after
  it appends nothing to the visited path, leaves segment index, progress, position and
  distance as they are, clears the interval and alerts once more.
\<close>

theorem play_at_end_of_route:
  assumes "length (route s) \<le> segmentIndexRef s + 1" and "\<not> isPlaying s"
    and "1 < length (route s)"
  shows "clickPlayPause s = s\<lparr>isPlaying := True, intervalRef := True\<rparr>
    \<and> visitedPath (intervalFires (clickPlayPause s)) = visitedPath s
    \<and> segmentIndexRef (intervalFires (clickPlayPause s)) = segmentIndexRef s
    \<and> progressRef (intervalFires (clickPlayPause s)) = progressRef s
    \<and> currentPos (intervalFires (clickPlayPause s)) = currentPos s
    \<and> distanceCovered (intervalFires (clickPlayPause s)) = distanceCovered s
    \<and> intervalRef (intervalFires (clickPlayPause s)) = False
    \<and> alerts (intervalFires (clickPlayPause s)) = alerts s + 1"
proof -
  note c = play_at_end(1) [OF assms]
  note f = play_at_end(2) [OF assms, unfolded c]
  show ?thesis by (simp add: c f)
qed

theorem play_at_end_of_route_witness:
  "length (route (clickPlayPause (ticks 101 demoStart)))
     \<le> segmentIndexRef (clickPlayPause (ticks 101 demoStart)) + 1
   \<and> \<not> isPlaying (clickPlayPause (ticks 101 demoStart))
   \<and> 1 < length (route (clickPlayPause (ticks 101 demoStart)))
   \<and> visitedPath (intervalFires (clickPlayPause (clickPlayPause (ticks 101 demoStart))))
       = visitedPath (clickPlayPause (ticks 101 demoStart))
   \<and> alerts (intervalFires (clickPlayPause (clickPlayPause (ticks 101 demoStart)))) = 2"
proof -
  let ?E = "clickPlayPause (ticks 101 demoStart)"
  from demo_paused_at_end have a: "length (route ?E) \<le> segmentIndexRef ?E + 1"
    "\<not> isPlaying ?E" "1 < length (route ?E)" and al: "alerts ?E = 1"
    by simp_all
  from play_at_end_of_route [OF a]
  have v: "visitedPath (intervalFires (clickPlayPause ?E)) = visitedPath ?E"
    and n: "alerts (intervalFires (clickPlayPause ?E)) = alerts ?E + 1"
    by blast+
  show ?thesis using a al v n by simp
qed

section \<open>Loading and rendering\<close>

lemma fetch_rejected: "fetchRoute Rejected s = s"
  by (simp add: fetchRoute_def)

lemma fetch_resolved:
  assumes "data \<noteq> []"
  shows "fetchRoute (Resolved data) initial =
    initial\<lparr>route := roundTrip data, visitedPath := [roundTrip data ! 0],
            currentPos := roundTrip data ! 0\<rparr>"
    and "\<exists>c. roundTrip data ! 0 = Some c"
    and "1 < length (roundTrip data)"
proof -
  from assms obtain p ps where d: "data = p # ps" by (cases data) auto
  show "\<exists>c. roundTrip data ! 0 = Some c"
    by (simp add: d roundTrip_def Let_def)
  show "1 < length (roundTrip data)"
    by (simp add: d roundTrip_length)
  show "fetchRoute (Resolved data) initial =
    initial\<lparr>route := roundTrip data, visitedPath := [roundTrip data ! 0],
            currentPos := roundTrip data ! 0\<rparr>"
    by (simp add: fetchRoute_def routeLoaded_def afterRender_def playbackEffect_def
        roundTrip_length js_at_def) (simp add: initial_def)
qed

text \<open>
  Claim C6 says that a source with fewer than two waypoints fails to load. One waypoint
  loads the route \<open>[p, p]\<close>: the panel is rendered and Play schedules the interval.
\<close>

theorem single_waypoint_loads_a_route:
  "route (fetchRoute (Resolved [\<lparr>latitude = 1, longitude = 2\<rparr>]) initial)
      = [Some (1, 2), Some (1, 2)]
   \<and> render (fetchRoute (Resolved [\<lparr>latitude = 1, longitude = 2\<rparr>]) initial) = Inr Panel
   \<and> render (fetchRoute (Resolved [\<lparr>latitude = 1, longitude = 2\<rparr>]) initial)
       \<noteq> Inr LoadingRoute
   \<and> intervalRef (clickPlayPause (fetchRoute (Resolved [\<lparr>latitude = 1, longitude = 2\<rparr>]) initial))"
  by (simp add: fetchRoute_def routeLoaded_def afterRender_def playbackEffect_def
      roundTrip_def js_at_def Let_def render_def clickPlayPause_def initial_def)

lemma fetch_empty:
  "fetchRoute (Resolved []) initial =
     initial\<lparr>route := [None], visitedPath := [None], currentPos := None\<rparr>"
  by (simp add: fetchRoute_def routeLoaded_def afterRender_def playbackEffect_def
      roundTrip_def js_at_def Let_def) (simp add: initial_def)

lemma loading_iff_rejected:
  "render (fetchRoute r initial) = Inr LoadingRoute \<longleftrightarrow> r = Rejected"
proof (cases r)
  case Rejected
  then show ?thesis by (simp add: fetch_rejected render_def initial_def)
next
  case (Resolved data)
  have "length (route (fetchRoute (Resolved data) initial)) = length data + 1"
    by (simp add: fetchRoute_def routeLoaded_def afterRender_def playbackEffect_def
        roundTrip_length)
  then have "render (fetchRoute (Resolved data) initial) \<noteq> Inr LoadingRoute"
    by (auto simp: render_def split: option.splits)
  with Resolved show ?thesis by simp
qed

text \<open>
  Claim C6, amended. The component keeps returning \<^verbatim>\<open>Loading route...\<close> exactly when the
  fetch is rejected: nothing is written then and the route stays empty. The number of
  waypoints is not checked. Every non-empty list of \<open>N\<close> waypoints loads the closed route of
  length \<open>N + 1\<close>, the panel is rendered and Play schedules the interval. The empty list
  loads the route \<open>[undefined]\<close>: rendering throws a \<^verbatim>\<open>TypeError\<close> and Play schedules
  nothing.
\<close>

theorem route_load_outcomes:
  "(render (fetchRoute r initial) = Inr LoadingRoute \<longleftrightarrow> r = Rejected)
    \<and> route (fetchRoute Rejected initial) = []
    \<and> (\<forall>n. render (ticks n (fetchRoute Rejected initial)) = Inr LoadingRoute)
    \<and> (data \<noteq> [] \<longrightarrow>
         route (fetchRoute (Resolved data) initial) = roundTrip data
         \<and> length (route (fetchRoute (Resolved data) initial)) = length data + 1
         \<and> render (fetchRoute (Resolved data) initial) = Inr Panel
         \<and> intervalRef (clickPlayPause (fetchRoute (Resolved data) initial)))
    \<and> route (fetchRoute (Resolved []) initial) = [None]
    \<and> render (fetchRoute (Resolved []) initial) = Inl TypeError
    \<and> \<not> intervalRef (clickPlayPause (fetchRoute (Resolved []) initial))"
proof -
  have i: "\<not> intervalRef initial" "route initial = []" by (simp_all add: initial_def)
  have r: "render (ticks n (fetchRoute Rejected initial)) = Inr LoadingRoute" for n
    unfolding fetch_rejected ticks_idle [OF i(1)] using i(2) by (simp add: render_def)
  have ok: "route (fetchRoute (Resolved data) initial) = roundTrip data
         \<and> length (route (fetchRoute (Resolved data) initial)) = length data + 1
         \<and> render (fetchRoute (Resolved data) initial) = Inr Panel
         \<and> intervalRef (clickPlayPause (fetchRoute (Resolved data) initial))"
    if d: "data \<noteq> []"
  proof -
    from fetch_resolved(2) [OF d] obtain c where c: "roundTrip data ! 0 = Some c" ..
    note l = fetch_resolved(3) [OF d]
    have p: "render (fetchRoute (Resolved data) initial) = Inr Panel"
      unfolding fetch_resolved(1) [OF d] using c l by (auto simp: render_def)
    have q: "intervalRef (clickPlayPause (fetchRoute (Resolved data) initial))"
      unfolding fetch_resolved(1) [OF d] using l
      by (simp add: clickPlayPause_def afterRender_def playbackEffect_def initial_def)
    show ?thesis
      using p q by (simp add: fetch_resolved(1) [OF d] roundTrip_length)
  qed
  have e: "route (fetchRoute (Resolved []) initial) = [None]"
    "render (fetchRoute (Resolved []) initial) = Inl TypeError"
    "\<not> intervalRef (clickPlayPause (fetchRoute (Resolved []) initial))"
    unfolding fetch_empty
    by (simp_all add: render_def clickPlayPause_def afterRender_def playbackEffect_def
        initial_def)
  have rej: "route (fetchRoute Rejected initial) = []"
    using i(2) by (simp add: fetch_rejected)
  from loading_iff_rejected [of r] rej r ok e show ?thesis by blast
qed

theorem route_load_outcomes_witness:
  "[\<lparr>latitude = 1, longitude = 2\<rparr>] \<noteq> []
   \<and> render (fetchRoute Rejected initial) = Inr LoadingRoute
   \<and> render (fetchRoute (Resolved []) initial) \<noteq> Inr LoadingRoute
   \<and> length (route (fetchRoute (Resolved [\<lparr>latitude = 1, longitude = 2\<rparr>]) initial)) = 2
   \<and> render (fetchRoute (Resolved [\<lparr>latitude = 1, longitude = 2\<rparr>]) initial) = Inr Panel"
proof -
  have h: "[\<lparr>latitude = 1, longitude = 2\<rparr>] \<noteq> []" by simp
  from route_load_outcomes [of Rejected "[\<lparr>latitude = 1, longitude = 2\<rparr>]"] h
  have a: "render (fetchRoute Rejected initial) = Inr LoadingRoute"
    and r: "length (route (fetchRoute (Resolved [\<lparr>latitude = 1, longitude = 2\<rparr>]) initial))
        = length [\<lparr>latitude = 1, longitude = 2\<rparr>] + 1"
      "render (fetchRoute (Resolved [\<lparr>latitude = 1, longitude = 2\<rparr>]) initial) = Inr Panel"
    and e: "render (fetchRoute (Resolved []) initial) = Inl TypeError"
    by blast+
  from e have "render (fetchRoute (Resolved []) initial) \<noteq> Inr LoadingRoute" by simp
  then show ?thesis using a r by simp
qed

section \<open>Properties of Geo Math in binary64\<close>

text \<open>Every operation on zero that \<^verbatim>\<open>getDistance\<close> performs for equal coordinates is exact.\<close>

lemma fl_norm_zero: "fl_norm (0, e) = (0, 0)"
  by simp

lemma fl_sub_self: "fl_sub x x = (0, 0)"
  by (cases x) simp

lemma fl_mul_zero_left: "fl_mul (0, 0) y = (0, 0)"
  by (cases y) simp

lemma fl_mul_zero_right: "fl_mul x (0, 0) = (0, 0)"
  by (cases x) simp

lemma fl_div_zero_left: "fl_div (0, 0) y = (0, 0)"
  by (cases y) simp

lemma fl_add_zero_zero: "fl_add (0, 0) (0, 0) = (0, 0)"
  by simp

lemma getDistance64_self:
  assumes "m_sin M (0, 0) = Some (0, 0)" and "m_sqrt M (0, 0) = Some (0, 0)"
    and "m_asin M (0, 0) = Some (0, 0)"
    and "m_cos M (fl_div (fl_mul (fst a) fl_pi) (fl_of_int 180)) = Some c"
  shows "getDistance64 M a a = Some (0, 0)"
  using assms
  by (simp add: getDistance64_def Let_def fl_sub_self fl_mul_zero_left fl_mul_zero_right
      fl_div_zero_left fl_add_zero_zero del: fl_mul.simps fl_div.simps fl_add.simps fl_sub.simps
      fl_norm.simps)

text \<open>
  The two directions between \<^verbatim>\<open>[5, 0]\<close> and \<^verbatim>\<open>[6, 2]\<close>, evaluated; then the two
  results and the coordinates as the numbers they stand for.
\<close>

lemma distance64_forward:
  "getDistance64 engine (fl_of_int 5, fl_of_int 0) (fl_of_int 6, fl_of_int 2)
    = Some (8715922465951568, - 45)"
  by code_simp

lemma distance64_backward:
  "getDistance64 engine (fl_of_int 6, fl_of_int 2) (fl_of_int 5, fl_of_int 0)
    = Some (8715922465951566, - 45)"
  by code_simp

lemma distance64_decimal:
  "\<bar>fl_val (8715922465951568, - 45) - 247.72141574520583\<bar> < 1 / 10 ^ 13
   \<and> \<bar>fl_val (8715922465951566, - 45) - 247.72141574520577\<bar> < 1 / 10 ^ 13
   \<and> fl_val (fl_of_int 5) = 5 \<and> fl_val (fl_of_int 6) = 6 \<and> fl_val (fl_of_int 2) = 2
   \<and> fl_val (fl_of_int 0) = 0"
proof -
  have "fl_of_int 5 = (5629499534213120, - 50)" "fl_of_int 6 = (6755399441055744, - 50)"
    "fl_of_int 2 = (4503599627370496, - 51)" "fl_of_int 0 = (0, 0)"
    by code_simp+
  then show ?thesis
    by (simp add: fl_val_def abs_less_iff)
qed

subsection \<open>The table of the engine\<close>

text \<open>
  Maclaurin polynomials enclose sine and cosine closely enough to show that every entry of
  the table is the binary64 number nearest to the exact value: the entry is less than half
  a unit of its last place away. The same is shown for \<^verbatim>\<open>Math.PI\<close>.
\<close>

lemma sum_upto_9:
  fixes f :: "nat \<Rightarrow> real"
  shows "(\<Sum>m<9. f m) = f 0 + f 1 + f 2 + f 3 + f 4 + f 5 + f 6 + f 7 + f 8"
  by (simp add: eval_nat_numeral)

lemma sum_upto_12:
  fixes f :: "nat \<Rightarrow> real"
  shows "(\<Sum>m<12. f m)
    = f 0 + f 1 + f 2 + f 3 + f 4 + f 5 + f 6 + f 7 + f 8 + f 9 + f 10 + f 11"
  by (simp add: eval_nat_numeral)

lemma trig_coeffs:
  "sin_coeff 0 = 0" "cos_coeff 0 = 1"
  "sin_coeff 1 = 1" "cos_coeff 1 = 0"
  "sin_coeff 2 = 0" "cos_coeff 2 = - (1 / 2)"
  "sin_coeff 3 = - (1 / 6)" "cos_coeff 3 = 0"
  "sin_coeff 4 = 0" "cos_coeff 4 = 1 / 24"
  "sin_coeff 5 = 1 / 120" "cos_coeff 5 = 0"
  "sin_coeff 6 = 0" "cos_coeff 6 = - (1 / 720)"
  "sin_coeff 7 = - (1 / 5040)" "cos_coeff 7 = 0"
  "sin_coeff 8 = 0" "cos_coeff 8 = 1 / 40320"
  "cos_coeff 9 = 0" "cos_coeff 10 = - (1 / 3628800)" "cos_coeff 11 = 0"
proof -
  show s0: "sin_coeff 0 = 0" and c0: "cos_coeff 0 = 1" by simp_all
  show s1: "sin_coeff 1 = 1" using sin_coeff_Suc [of 0] by simp
  show c1: "cos_coeff 1 = 0" using cos_coeff_Suc [of 0] by simp
  show s2: "sin_coeff 2 = 0" using sin_coeff_Suc [of 1] c1 by (simp add: numeral_2_eq_2)
  show c2: "cos_coeff 2 = - (1 / 2)" using cos_coeff_Suc [of 1] s1 by (simp add: numeral_2_eq_2)
  show s3: "sin_coeff 3 = - (1 / 6)" using sin_coeff_Suc [of 2] c2 by simp
  show c3: "cos_coeff 3 = 0" using cos_coeff_Suc [of 2] s2 by simp
  show s4: "sin_coeff 4 = 0" using sin_coeff_Suc [of 3] c3 by simp
  show c4: "cos_coeff 4 = 1 / 24" using cos_coeff_Suc [of 3] s3 by simp
  show s5: "sin_coeff 5 = 1 / 120" using sin_coeff_Suc [of 4] c4 by simp
  show c5: "cos_coeff 5 = 0" using cos_coeff_Suc [of 4] s4 by simp
  show s6: "sin_coeff 6 = 0" using sin_coeff_Suc [of 5] c5 by simp
  show c6: "cos_coeff 6 = - (1 / 720)" using cos_coeff_Suc [of 5] s5 by simp
  show s7: "sin_coeff 7 = - (1 / 5040)" using sin_coeff_Suc [of 6] c6 by simp
  show c7: "cos_coeff 7 = 0" using cos_coeff_Suc [of 6] s6 by simp
  show s8: "sin_coeff 8 = 0" using sin_coeff_Suc [of 7] c7 by simp
  show c8: "cos_coeff 8 = 1 / 40320" using cos_coeff_Suc [of 7] s7 by simp
  have s9: "sin_coeff 9 = 1 / 362880" using sin_coeff_Suc [of 8] c8 by simp
  show c9: "cos_coeff 9 = 0" using cos_coeff_Suc [of 8] s8 by simp
  have s10: "sin_coeff 10 = 0" using sin_coeff_Suc [of 9] c9 by simp
  show c10: "cos_coeff 10 = - (1 / 3628800)" using cos_coeff_Suc [of 9] s9 by simp
  show "cos_coeff 11 = 0" using cos_coeff_Suc [of 10] s10 by simp
qed


lemma sin_poly_sum:
  fixes x :: real
  shows "(\<Sum>m<9. sin_coeff m * x ^ m) = x - x ^ 3 / 6 + x ^ 5 / 120 - x ^ 7 / 5040"
proof -
  have "(\<Sum>m<9. sin_coeff m * x ^ m)
      = sin_coeff 0 * x ^ 0 + sin_coeff 1 * x ^ 1 + sin_coeff 2 * x ^ 2 + sin_coeff 3 * x ^ 3
        + sin_coeff 4 * x ^ 4 + sin_coeff 5 * x ^ 5 + sin_coeff 6 * x ^ 6 + sin_coeff 7 * x ^ 7
        + sin_coeff 8 * x ^ 8"
    by (rule sum_upto_9)
  also have "\<dots> = x - x ^ 3 / 6 + x ^ 5 / 120 - x ^ 7 / 5040"
    by (simp only: trig_coeffs mult_zero_left add_0_left add_0_right power_one_right mult_1
        mult_minus_left times_divide_eq_left add_uminus_conv_diff)
  finally show ?thesis .
qed

lemma cos_poly_sum:
  fixes x :: real
  shows "(\<Sum>m<12. cos_coeff m * x ^ m)
    = 1 - x ^ 2 / 2 + x ^ 4 / 24 - x ^ 6 / 720 + x ^ 8 / 40320 - x ^ 10 / 3628800"
proof -
  have "(\<Sum>m<12. cos_coeff m * x ^ m)
      = cos_coeff 0 * x ^ 0 + cos_coeff 1 * x ^ 1 + cos_coeff 2 * x ^ 2 + cos_coeff 3 * x ^ 3
        + cos_coeff 4 * x ^ 4 + cos_coeff 5 * x ^ 5 + cos_coeff 6 * x ^ 6 + cos_coeff 7 * x ^ 7
        + cos_coeff 8 * x ^ 8 + cos_coeff 9 * x ^ 9 + cos_coeff 10 * x ^ 10
        + cos_coeff 11 * x ^ 11"
    by (rule sum_upto_12)
  also have "\<dots> = 1 - x ^ 2 / 2 + x ^ 4 / 24 - x ^ 6 / 720 + x ^ 8 / 40320 - x ^ 10 / 3628800"
    by (simp only: trig_coeffs mult_zero_left add_0_left add_0_right power_0 mult_1
        mult_minus_left times_divide_eq_left add_uminus_conv_diff)
  finally show ?thesis .
qed

lemma sin_poly:
  fixes x :: real
  shows "\<bar>sin x - (x - x ^ 3 / 6 + x ^ 5 / 120 - x ^ 7 / 5040)\<bar> \<le> \<bar>x\<bar> ^ 9 / 362880"
proof -
  have f: "(fact 9 :: real) = 362880" by (simp add: fact_numeral)
  have i: "inverse (362880 :: real) * y = y / 362880" for y by (simp add: field_simps)
  from Maclaurin_sin_bound [of x 9] show ?thesis
    unfolding sin_poly_sum f i .
qed

lemma cos_poly:
  fixes x :: real
  assumes "0 < x"
  shows "\<bar>cos x - (1 - x ^ 2 / 2 + x ^ 4 / 24 - x ^ 6 / 720 + x ^ 8 / 40320 - x ^ 10 / 3628800)\<bar>
    \<le> x ^ 12 / 479001600"
proof -
  from Maclaurin_cos_expansion2 [OF assms, of 12] obtain t where
    e: "cos x = (\<Sum>m<12. cos_coeff m * x ^ m)
        + (cos (t + 1 / 2 * real 12 * pi) / fact 12) * x ^ 12"
    by auto
  define c where "c = cos (t + 1 / 2 * real 12 * pi)"
  define r where "r = x ^ 12 / 479001600"
  have c: "\<bar>c\<bar> \<le> 1" unfolding c_def by simp
  have r0: "0 \<le> r" unfolding r_def using assms by simp
  have f: "(fact 12 :: real) = 479001600" by (simp add: fact_numeral)
  have "cos x - (\<Sum>m<12. cos_coeff m * x ^ m) = c * r"
    using e unfolding c_def r_def f by simp
  then have "\<bar>cos x - (\<Sum>m<12. cos_coeff m * x ^ m)\<bar> = \<bar>c\<bar> * r"
    using r0 by (simp add: abs_mult)
  also have "\<dots> \<le> 1 * r"
    using c r0 by (rule mult_right_mono)
  finally show ?thesis unfolding cos_poly_sum r_def by simp
qed

lemma sin_table_1:
  "\<bar>sin (fl_val (5030569068109113, - 59)) - fl_val (5030505218395169, - 59)\<bar> < 1 / 2 ^ 60"
proof -
  have v: "fl_val (5030569068109113, - 59) = 5030569068109113 / 2 ^ 59"
    "fl_val (5030505218395169, - 59) = 5030505218395169 / 2 ^ 59"
    by (simp_all add: fl_val_def)
  define x :: real where "x = 5030569068109113 / 2 ^ 59"
  have a: "\<bar>x\<bar> ^ 9 / 362880 < 1 / 2 ^ 80"
    unfolding x_def by (simp add: power_divide)
  have b: "\<bar>(x - x ^ 3 / 6 + x ^ 5 / 120 - x ^ 7 / 5040) - 5030505218395169 / 2 ^ 59\<bar>
      < 1 / 2 ^ 60 - 1 / 2 ^ 80"
    unfolding x_def by (simp add: power_divide abs_less_iff)
  from sin_poly [of x] a b show ?thesis
    unfolding v x_def by linarith
qed

lemma sin_table_1_minus:
  "\<bar>sin (fl_val (- 5030569068109113, - 59)) - fl_val (- 5030505218395169, - 59)\<bar> < 1 / 2 ^ 60"
proof -
  have v: "fl_val (- 5030569068109113, - 59) = - fl_val (5030569068109113, - 59)"
    "fl_val (- 5030505218395169, - 59) = - fl_val (5030505218395169, - 59)"
    by (simp_all add: fl_val_def)
  show ?thesis
    unfolding v sin_minus minus_diff_minus abs_minus by (rule sin_table_1)
qed

lemma sin_table_2:
  "\<bar>sin (fl_val (5030569068109113, - 58)) - fl_val (5030313672170782, - 58)\<bar> < 1 / 2 ^ 59"
proof -
  have v: "fl_val (5030569068109113, - 58) = 5030569068109113 / 2 ^ 58"
    "fl_val (5030313672170782, - 58) = 5030313672170782 / 2 ^ 58"
    by (simp_all add: fl_val_def)
  define x :: real where "x = 5030569068109113 / 2 ^ 58"
  have a: "\<bar>x\<bar> ^ 9 / 362880 < 1 / 2 ^ 71"
    unfolding x_def by (simp add: power_divide)
  have b: "\<bar>(x - x ^ 3 / 6 + x ^ 5 / 120 - x ^ 7 / 5040) - 5030313672170782 / 2 ^ 58\<bar>
      < 1 / 2 ^ 59 - 1 / 2 ^ 71"
    unfolding x_def by (simp add: power_divide abs_less_iff)
  from sin_poly [of x] a b show ?thesis
    unfolding v x_def by linarith
qed

lemma sin_table_2_minus:
  "\<bar>sin (fl_val (- 5030569068109113, - 58)) - fl_val (- 5030313672170782, - 58)\<bar> < 1 / 2 ^ 59"
proof -
  have v: "fl_val (- 5030569068109113, - 58) = - fl_val (5030569068109113, - 58)"
    "fl_val (- 5030313672170782, - 58) = - fl_val (5030313672170782, - 58)"
    by (simp_all add: fl_val_def)
  show ?thesis
    unfolding v sin_minus minus_diff_minus abs_minus by (rule sin_table_2)
qed

lemma cos_table_1:
  "\<bar>cos (fl_val (6288211335136391, - 56)) - fl_val (8972924142228898, - 53)\<bar> < 1 / 2 ^ 54"
proof -
  have v: "fl_val (6288211335136391, - 56) = 6288211335136391 / 2 ^ 56"
    "fl_val (8972924142228898, - 53) = 8972924142228898 / 2 ^ 53"
    by (simp_all add: fl_val_def)
  define x :: real where "x = 6288211335136391 / 2 ^ 56"
  have x0: "0 < x" unfolding x_def by simp
  have a: "x ^ 12 / 479001600 < 1 / 2 ^ 71"
    unfolding x_def by (simp add: power_divide)
  have b: "\<bar>(1 - x ^ 2 / 2 + x ^ 4 / 24 - x ^ 6 / 720 + x ^ 8 / 40320 - x ^ 10 / 3628800)
      - 8972924142228898 / 2 ^ 53\<bar> < 1 / 2 ^ 54 - 1 / 2 ^ 71"
    unfolding x_def by (simp add: power_divide abs_less_iff)
  from cos_poly [OF x0] a b show ?thesis
    unfolding v x_def by linarith
qed

lemma cos_table_2:
  "\<bar>cos (fl_val (7545853602163669, - 56)) - fl_val (8957856874784710, - 53)\<bar> < 1 / 2 ^ 54"
proof -
  have v: "fl_val (7545853602163669, - 56) = 7545853602163669 / 2 ^ 56"
    "fl_val (8957856874784710, - 53) = 8957856874784710 / 2 ^ 53"
    by (simp_all add: fl_val_def)
  define x :: real where "x = 7545853602163669 / 2 ^ 56"
  have x0: "0 < x" unfolding x_def by simp
  have a: "x ^ 12 / 479001600 < 1 / 2 ^ 67"
    unfolding x_def by (simp add: power_divide)
  have b: "\<bar>(1 - x ^ 2 / 2 + x ^ 4 / 24 - x ^ 6 / 720 + x ^ 8 / 40320 - x ^ 10 / 3628800)
      - 8957856874784710 / 2 ^ 53\<bar> < 1 / 2 ^ 54 - 1 / 2 ^ 67"
    unfolding x_def by (simp add: power_divide abs_less_iff)
  from cos_poly [OF x0] a b show ?thesis
    unfolding v x_def by linarith
qed

lemma sqrt_table_1:
  "\<bar>sqrt (fl_val (6971350380797596, - 64)) - fl_val (5603228620824713, - 58)\<bar> < 1 / 2 ^ 59"
proof -
  have v: "fl_val (6971350380797596, - 64) = 6971350380797596 / 2 ^ 64"
    "fl_val (5603228620824713, - 58) = 5603228620824713 / 2 ^ 58"
    by (simp_all add: fl_val_def)
  define h :: real where "h = 6971350380797596 / 2 ^ 64"
  define lo :: real where "lo = 11206457241649425 / 2 ^ 59"
  define hi :: real where "hi = 11206457241649427 / 2 ^ 59"
  have "lo\<^sup>2 < h" unfolding lo_def h_def by (simp add: power_divide)
  then have l: "lo < sqrt h" by (rule real_less_rsqrt)
  have "0 \<le> hi" unfolding hi_def by simp
  moreover have "h < hi\<^sup>2" unfolding hi_def h_def by (simp add: power_divide)
  ultimately have u: "sqrt h < hi" by (rule real_less_lsqrt)
  have "lo = 5603228620824713 / 2 ^ 58 - 1 / 2 ^ 59" "hi = 5603228620824713 / 2 ^ 58 + 1 / 2 ^ 59"
    unfolding lo_def hi_def by simp_all
  with l u show ?thesis unfolding v h_def by linarith
qed

lemma sqrt_table_2:
  "\<bar>sqrt (fl_val (6971350380797594, - 64)) - fl_val (5603228620824712, - 58)\<bar> < 1 / 2 ^ 59"
proof -
  have v: "fl_val (6971350380797594, - 64) = 6971350380797594 / 2 ^ 64"
    "fl_val (5603228620824712, - 58) = 5603228620824712 / 2 ^ 58"
    by (simp_all add: fl_val_def)
  define h :: real where "h = 6971350380797594 / 2 ^ 64"
  define lo :: real where "lo = 11206457241649423 / 2 ^ 59"
  define hi :: real where "hi = 11206457241649425 / 2 ^ 59"
  have "lo\<^sup>2 < h" unfolding lo_def h_def by (simp add: power_divide)
  then have l: "lo < sqrt h" by (rule real_less_rsqrt)
  have "0 \<le> hi" unfolding hi_def by simp
  moreover have "h < hi\<^sup>2" unfolding hi_def h_def by (simp add: power_divide)
  ultimately have u: "sqrt h < hi" by (rule real_less_lsqrt)
  have "lo = 5603228620824712 / 2 ^ 58 - 1 / 2 ^ 59" "hi = 5603228620824712 / 2 ^ 58 + 1 / 2 ^ 59"
    unfolding lo_def hi_def by simp_all
  with l u show ?thesis unfolding v h_def by linarith
qed

lemma asin_table_1:
  "\<bar>arcsin (fl_val (5603228620824713, - 58)) - fl_val (5603581607367387, - 58)\<bar> < 1 / 2 ^ 59"
proof -
  have v: "fl_val (5603228620824713, - 58) = 5603228620824713 / 2 ^ 58"
    "fl_val (5603581607367387, - 58) = 5603581607367387 / 2 ^ 58"
    by (simp_all add: fl_val_def)
  define k :: real where "k = 5603228620824713 / 2 ^ 58"
  define lo :: real where "lo = 11207163214734773 / 2 ^ 59"
  define hi :: real where "hi = 11207163214734775 / 2 ^ 59"
  have p: "2 \<le> pi" by (rule pi_ge_two)
  have lo1: "0 \<le> lo" "lo \<le> 1" and hi1: "0 \<le> hi" "hi \<le> 1"
    unfolding lo_def hi_def by simp_all
  have k1: "0 \<le> k" "k \<le> 1" unfolding k_def by simp_all
  have ra: "\<bar>lo\<bar> ^ 9 / 362880 < 1 / 2 ^ 69" "\<bar>hi\<bar> ^ 9 / 362880 < 1 / 2 ^ 69"
    unfolding lo_def hi_def by (simp_all add: power_divide)
  have pl: "(lo - lo ^ 3 / 6 + lo ^ 5 / 120 - lo ^ 7 / 5040) + 1 / 2 ^ 69 < k"
    unfolding lo_def k_def by (simp add: power_divide)
  have ph: "k < (hi - hi ^ 3 / 6 + hi ^ 5 / 120 - hi ^ 7 / 5040) - 1 / 2 ^ 69"
    unfolding hi_def k_def by (simp add: power_divide)
  from sin_poly [of lo] ra(1) pl have sl: "sin lo < k" by linarith
  from sin_poly [of hi] ra(2) ph have sh: "k < sin hi" by linarith
  have "arcsin (sin lo) < arcsin k"
    using sl k1 by (intro arcsin_less_arcsin) (simp_all add: order_trans [OF _ sin_ge_minus_one])
  moreover have "arcsin (sin lo) = lo"
    using lo1 p by (intro arcsin_sin) linarith+
  ultimately have l: "lo < arcsin k" by simp
  have "arcsin k < arcsin (sin hi)"
    using sh k1 by (intro arcsin_less_arcsin) simp_all
  moreover have "arcsin (sin hi) = hi"
    using hi1 p by (intro arcsin_sin) linarith+
  ultimately have u: "arcsin k < hi" by simp
  have "lo = 5603581607367387 / 2 ^ 58 - 1 / 2 ^ 59" "hi = 5603581607367387 / 2 ^ 58 + 1 / 2 ^ 59"
    unfolding lo_def hi_def by simp_all
  with l u show ?thesis unfolding v k_def by linarith
qed

lemma asin_table_2:
  "\<bar>arcsin (fl_val (5603228620824712, - 58)) - fl_val (5603581607367386, - 58)\<bar> < 1 / 2 ^ 59"
proof -
  have v: "fl_val (5603228620824712, - 58) = 5603228620824712 / 2 ^ 58"
    "fl_val (5603581607367386, - 58) = 5603581607367386 / 2 ^ 58"
    by (simp_all add: fl_val_def)
  define k :: real where "k = 5603228620824712 / 2 ^ 58"
  define lo :: real where "lo = 11207163214734771 / 2 ^ 59"
  define hi :: real where "hi = 11207163214734773 / 2 ^ 59"
  have p: "2 \<le> pi" by (rule pi_ge_two)
  have lo1: "0 \<le> lo" "lo \<le> 1" and hi1: "0 \<le> hi" "hi \<le> 1"
    unfolding lo_def hi_def by simp_all
  have k1: "0 \<le> k" "k \<le> 1" unfolding k_def by simp_all
  have ra: "\<bar>lo\<bar> ^ 9 / 362880 < 1 / 2 ^ 69" "\<bar>hi\<bar> ^ 9 / 362880 < 1 / 2 ^ 69"
    unfolding lo_def hi_def by (simp_all add: power_divide)
  have pl: "(lo - lo ^ 3 / 6 + lo ^ 5 / 120 - lo ^ 7 / 5040) + 1 / 2 ^ 69 < k"
    unfolding lo_def k_def by (simp add: power_divide)
  have ph: "k < (hi - hi ^ 3 / 6 + hi ^ 5 / 120 - hi ^ 7 / 5040) - 1 / 2 ^ 69"
    unfolding hi_def k_def by (simp add: power_divide)
  from sin_poly [of lo] ra(1) pl have sl: "sin lo < k" by linarith
  from sin_poly [of hi] ra(2) ph have sh: "k < sin hi" by linarith
  have "arcsin (sin lo) < arcsin k"
    using sl k1 by (intro arcsin_less_arcsin) (simp_all add: order_trans [OF _ sin_ge_minus_one])
  moreover have "arcsin (sin lo) = lo"
    using lo1 p by (intro arcsin_sin) linarith+
  ultimately have l: "lo < arcsin k" by simp
  have "arcsin k < arcsin (sin hi)"
    using sh k1 by (intro arcsin_less_arcsin) simp_all
  moreover have "arcsin (sin hi) = hi"
    using hi1 p by (intro arcsin_sin) linarith+
  ultimately have u: "arcsin k < hi" by simp
  have "lo = 5603581607367386 / 2 ^ 58 - 1 / 2 ^ 59" "hi = 5603581607367386 / 2 ^ 58 + 1 / 2 ^ 59"
    unfolding lo_def hi_def by simp_all
  with l u show ?thesis unfolding v k_def by linarith
qed

lemma sum_upto_13:
  fixes f :: "nat \<Rightarrow> real"
  shows "(\<Sum>m<13. f m)
    = f 0 + f 1 + f 2 + f 3 + f 4 + f 5 + f 6 + f 7 + f 8 + f 9 + f 10 + f 11 + f 12"
  by (simp add: eval_nat_numeral)

lemma sum_upto_5:
  fixes f :: "nat \<Rightarrow> real"
  shows "(\<Sum>m<5. f m) = f 0 + f 1 + f 2 + f 3 + f 4"
  by (simp add: eval_nat_numeral)

lemma sum_upto_4:
  fixes f :: "nat \<Rightarrow> real"
  shows "(\<Sum>m<4. f m) = f 0 + f 1 + f 2 + f 3"
  by (simp add: eval_nat_numeral)

lemma pi_nearest: "\<bar>pi - fl_val fl_pi\<bar> < 1 / 2 ^ 52"
proof -
  have v: "fl_val fl_pi = 7074237752028440 / 2 ^ 51"
    by (simp add: fl_val_def fl_pi_def)
  have l5: "(\<Sum>i<12. (- 1) ^ i * (1 / real (i * 2 + 1) * (1 / 5) ^ (i * 2 + 1))) \<le> arctan (1 / 5)"
    using arctan_enclosure(1) [of "1 / 5" 6] by simp
  have u5: "arctan (1 / 5) \<le> (\<Sum>i<13. (- 1) ^ i * (1 / real (i * 2 + 1) * (1 / 5) ^ (i * 2 + 1)))"
    using arctan_enclosure(2) [of "1 / 5" 6] by simp
  have l239: "(\<Sum>i<4. (- 1) ^ i * (1 / real (i * 2 + 1) * (1 / 239) ^ (i * 2 + 1))) \<le> arctan (1 / 239)"
    using arctan_enclosure(1) [of "1 / 239" 2] by simp
  have u239: "arctan (1 / 239) \<le> (\<Sum>i<5. (- 1) ^ i * (1 / real (i * 2 + 1) * (1 / 239) ^ (i * 2 + 1)))"
    using arctan_enclosure(2) [of "1 / 239" 2] by simp
  have m: "pi = 16 * arctan (1 / 5) - 4 * arctan (1 / 239)"
    using machin by simp
  have lo: "7074237752028440 / 2 ^ 51 - 1 / 2 ^ 52
      < 16 * (\<Sum>i<12. (- 1) ^ i * (1 / real (i * 2 + 1) * (1 / 5) ^ (i * 2 + 1)))
        - 4 * (\<Sum>i<5. (- 1) ^ i * (1 / real (i * 2 + 1) * (1 / 239) ^ (i * 2 + 1)))"
    unfolding sum_upto_12 sum_upto_5 by (simp add: power_divide)
  have hi: "16 * (\<Sum>i<13. (- 1) ^ i * (1 / real (i * 2 + 1) * (1 / 5) ^ (i * 2 + 1)))
        - 4 * (\<Sum>i<4. (- 1) ^ i * (1 / real (i * 2 + 1) * (1 / 239) ^ (i * 2 + 1)))
      < 7074237752028440 / 2 ^ 51 + 1 / 2 ^ 52"
    unfolding sum_upto_13 sum_upto_4 by (simp add: power_divide)
  from l5 u5 l239 u239 lo hi show ?thesis
    unfolding v m by linarith
qed

lemma engine_correctly_rounded:
  "\<bar>sin (fl_val (5030569068109113, - 59)) - fl_val (5030505218395169, - 59)\<bar> < 1 / 2 ^ 60
   \<and> \<bar>sin (fl_val (- 5030569068109113, - 59)) - fl_val (- 5030505218395169, - 59)\<bar> < 1 / 2 ^ 60
   \<and> \<bar>sin (fl_val (5030569068109113, - 58)) - fl_val (5030313672170782, - 58)\<bar> < 1 / 2 ^ 59
   \<and> \<bar>sin (fl_val (- 5030569068109113, - 58)) - fl_val (- 5030313672170782, - 58)\<bar> < 1 / 2 ^ 59
   \<and> \<bar>cos (fl_val (6288211335136391, - 56)) - fl_val (8972924142228898, - 53)\<bar> < 1 / 2 ^ 54
   \<and> \<bar>cos (fl_val (7545853602163669, - 56)) - fl_val (8957856874784710, - 53)\<bar> < 1 / 2 ^ 54
   \<and> \<bar>sqrt (fl_val (6971350380797596, - 64)) - fl_val (5603228620824713, - 58)\<bar> < 1 / 2 ^ 59
   \<and> \<bar>sqrt (fl_val (6971350380797594, - 64)) - fl_val (5603228620824712, - 58)\<bar> < 1 / 2 ^ 59
   \<and> \<bar>arcsin (fl_val (5603228620824713, - 58)) - fl_val (5603581607367387, - 58)\<bar> < 1 / 2 ^ 59
   \<and> \<bar>arcsin (fl_val (5603228620824712, - 58)) - fl_val (5603581607367386, - 58)\<bar> < 1 / 2 ^ 59
   \<and> \<bar>pi - fl_val fl_pi\<bar> < 1 / 2 ^ 52"
  by (intro conjI sin_table_1 sin_table_1_minus sin_table_2 sin_table_2_minus cos_table_1
      cos_table_2 sqrt_table_1 sqrt_table_2 asin_table_1 asin_table_2 pi_nearest)

subsection \<open>Symmetry of the distance\<close>

lemma demo_latitude:
  "fl_div (fl_mul (fl_of_int 5) fl_pi) (fl_of_int 180) = (6288211335136391, - 56)"
  by code_simp

text \<open>
  Claim C8 says that the distance from \<open>a\<close> to \<open>b\<close> equals the distance from \<open>b\<close> to
  \<open>a\<close>. The program rounds the product \<^verbatim>\<open>sin\<^sup>2 * cos(lat1) * cos(lat2)\<close> from the left, so
  the two directions round in a different order: from \<^verbatim>\<open>[5, 0]\<close> to \<^verbatim>\<open>[6, 2]\<close> the
  result is \<^verbatim>\<open>247.72141574520583\<close>, in the other direction \<^verbatim>\<open>247.72141574520577\<close>.
\<close>

theorem getDistance64_not_symmetric:
  "getDistance64 engine (fl_of_int 5, fl_of_int 0) (fl_of_int 6, fl_of_int 2)
     = Some (8715922465951568, - 45)
   \<and> getDistance64 engine (fl_of_int 6, fl_of_int 2) (fl_of_int 5, fl_of_int 0)
     = Some (8715922465951566, - 45)
   \<and> getDistance64 engine (fl_of_int 5, fl_of_int 0) (fl_of_int 6, fl_of_int 2)
     \<noteq> getDistance64 engine (fl_of_int 6, fl_of_int 2) (fl_of_int 5, fl_of_int 0)"
  using distance64_forward distance64_backward by simp

text \<open>
  Claim C8, amended. The distance from a coordinate to itself is \<open>0\<close>, in exact arithmetic
  and as the program computes it in binary64 (for every table of the engine with
  \<^verbatim>\<open>Math.sin(0) = 0\<close>, \<^verbatim>\<open>Math.sqrt(0) = 0\<close>, \<^verbatim>\<open>Math.asin(0) = 0\<close> and a value of
  \<^verbatim>\<open>Math.cos\<close> at the latitude). The distance of the haversine formula with radius 6371 km
  is symmetric in exact arithmetic; the binary64 results of the two directions are not
  always equal.
\<close>

theorem getDistance_self_and_symmetric:
  "getDistance a a = 0 \<and> getDistance a b = getDistance b a
   \<and> (m_sin M (0, 0) = Some (0, 0) \<and> m_sqrt M (0, 0) = Some (0, 0)
        \<and> m_asin M (0, 0) = Some (0, 0)
        \<and> m_cos M (fl_div (fl_mul (fst c) fl_pi) (fl_of_int 180)) \<noteq> None
      \<longrightarrow> getDistance64 M c c = Some (0, 0))"
proof -
  have "getDistance a a = 0 \<and> getDistance a b = getDistance b a"
    by (simp add: getDistance_def hav_self hav_sym [of a b])
  moreover have "getDistance64 M c c = Some (0, 0)"
    if "m_sin M (0, 0) = Some (0, 0)" "m_sqrt M (0, 0) = Some (0, 0)"
      "m_asin M (0, 0) = Some (0, 0)"
      "m_cos M (fl_div (fl_mul (fst c) fl_pi) (fl_of_int 180)) \<noteq> None"
  proof -
    from that(4) obtain k where
      "m_cos M (fl_div (fl_mul (fst c) fl_pi) (fl_of_int 180)) = Some k" by auto
    with that(1-3) show ?thesis by (rule getDistance64_self)
  qed
  ultimately show ?thesis by blast
qed

theorem getDistance_self_and_symmetric_witness:
  "m_sin engine (0, 0) = Some (0, 0) \<and> m_sqrt engine (0, 0) = Some (0, 0)
   \<and> m_asin engine (0, 0) = Some (0, 0)
   \<and> m_cos engine (fl_div (fl_mul (fst (fl_of_int 5, fl_of_int 0)) fl_pi) (fl_of_int 180)) \<noteq> None
   \<and> getDistance64 engine (fl_of_int 5, fl_of_int 0) (fl_of_int 5, fl_of_int 0) = Some (0, 0)
   \<and> getDistance (5, 0) (5, 0) = 0
   \<and> getDistance (5, 0) (6, 2) = getDistance (6, 2) (5, 0)"
proof -
  have h: "m_sin engine (0, 0) = Some (0, 0)" "m_sqrt engine (0, 0) = Some (0, 0)"
    "m_asin engine (0, 0) = Some (0, 0)"
    "m_cos engine (fl_div (fl_mul (fst (fl_of_int 5, fl_of_int 0)) fl_pi) (fl_of_int 180)) \<noteq> None"
    by (simp_all add: engine_def demo_latitude)
  from getDistance_self_and_symmetric
    [of "(5, 0)" "(6, 2)" engine "(fl_of_int 5, fl_of_int 0)"] h
  show ?thesis by blast
qed

end
